theory Spec2Isabelle
  imports Complex_Main "HOL-Library.Multiset"
begin

section \<open>JavaScript numbers\<close>

text \<open>
  The matching engine computes with the \<^verbatim>\<open>number\<close> type of TypeScript. A finite number is
  modelled by the real it denotes (rounding and overflow of the binary64 format are not
  modelled, and the two zeros are identified); the three values that division by zero
  produces are kept as values of their own, with the arithmetic and the comparisons that
  IEEE 754 gives them: a comparison with \<open>NaN\<close> is false, \<^verbatim>\<open>Math.max\<close> and
  \<^verbatim>\<open>Math.min\<close> return \<open>NaN\<close> when an argument is \<open>NaN\<close>.
\<close>

datatype number = Num real | PosInf | NegInf | NaN

definition sgn_inf :: "real \<Rightarrow> number" where
  "sgn_inf a = (if a = 0 then NaN else if 0 < a then PosInf else NegInf)"

fun js_neg :: "number \<Rightarrow> number" where
  "js_neg (Num a) = Num (- a)"
| "js_neg PosInf = NegInf"
| "js_neg NegInf = PosInf"
| "js_neg NaN = NaN"

fun js_abs :: "number \<Rightarrow> number" where
  "js_abs (Num a) = Num \<bar>a\<bar>"
| "js_abs PosInf = PosInf"
| "js_abs NegInf = PosInf"
| "js_abs NaN = NaN"

fun js_add :: "number \<Rightarrow> number \<Rightarrow> number" where
  "js_add (Num a) (Num b) = Num (a + b)"
| "js_add NaN y = NaN"
| "js_add x NaN = NaN"
| "js_add PosInf NegInf = NaN"
| "js_add NegInf PosInf = NaN"
| "js_add PosInf y = PosInf"
| "js_add NegInf y = NegInf"
| "js_add (Num a) y = y"

definition js_sub :: "number \<Rightarrow> number \<Rightarrow> number" where
  "js_sub x y = js_add x (js_neg y)"

fun js_mul :: "number \<Rightarrow> number \<Rightarrow> number" where
  "js_mul (Num a) (Num b) = Num (a * b)"
| "js_mul NaN y = NaN"
| "js_mul x NaN = NaN"
| "js_mul (Num a) PosInf = sgn_inf a"
| "js_mul (Num a) NegInf = sgn_inf (- a)"
| "js_mul PosInf (Num b) = sgn_inf b"
| "js_mul NegInf (Num b) = sgn_inf (- b)"
| "js_mul PosInf PosInf = PosInf"
| "js_mul NegInf NegInf = PosInf"
| "js_mul PosInf NegInf = NegInf"
| "js_mul NegInf PosInf = NegInf"

fun js_div :: "number \<Rightarrow> number \<Rightarrow> number" where
  "js_div (Num a) (Num b) = (if b = 0 then sgn_inf a else Num (a / b))"
| "js_div NaN y = NaN"
| "js_div x NaN = NaN"
| "js_div (Num a) PosInf = Num 0"
| "js_div (Num a) NegInf = Num 0"
| "js_div PosInf (Num b) = (if b < 0 then NegInf else PosInf)"
| "js_div NegInf (Num b) = (if b < 0 then PosInf else NegInf)"
| "js_div PosInf PosInf = NaN"
| "js_div PosInf NegInf = NaN"
| "js_div NegInf PosInf = NaN"
| "js_div NegInf NegInf = NaN"

fun js_le :: "number \<Rightarrow> number \<Rightarrow> bool" where
  "js_le (Num a) (Num b) = (a \<le> b)"
| "js_le NaN y = False"
| "js_le x NaN = False"
| "js_le NegInf y = True"
| "js_le (Num a) PosInf = True"
| "js_le PosInf PosInf = True"
| "js_le (Num a) NegInf = False"
| "js_le PosInf (Num b) = False"
| "js_le PosInf NegInf = False"

fun js_lt :: "number \<Rightarrow> number \<Rightarrow> bool" where
  "js_lt (Num a) (Num b) = (a < b)"
| "js_lt NaN y = False"
| "js_lt x NaN = False"
| "js_lt PosInf y = False"
| "js_lt (Num a) NegInf = False"
| "js_lt NegInf NegInf = False"
| "js_lt (Num a) PosInf = True"
| "js_lt NegInf (Num b) = True"
| "js_lt NegInf PosInf = True"

definition js_ge :: "number \<Rightarrow> number \<Rightarrow> bool" where
  "js_ge x y = js_le y x"

definition js_gt :: "number \<Rightarrow> number \<Rightarrow> bool" where
  "js_gt x y = js_lt y x"

text \<open>Strict equality \<^verbatim>\<open>===\<close> on numbers: \<open>NaN\<close> is not equal to itself.\<close>

definition js_eq :: "number \<Rightarrow> number \<Rightarrow> bool" where
  "js_eq x y = (x \<noteq> NaN \<and> x = y)"

definition js_max :: "number \<Rightarrow> number \<Rightarrow> number" where
  "js_max x y = (if x = NaN \<or> y = NaN then NaN else if js_le x y then y else x)"

definition js_min :: "number \<Rightarrow> number \<Rightarrow> number" where
  "js_min x y = (if x = NaN \<or> y = NaN then NaN else if js_le x y then x else y)"

text \<open>The truth value of a number in a condition: \<open>0\<close> and \<open>NaN\<close> count as false.\<close>

definition truthy :: "number \<Rightarrow> bool" where
  "truthy x = (x \<noteq> Num 0 \<and> x \<noteq> NaN)"


section \<open>Data model\<close>

text \<open>
  The interfaces of the type declarations. A \<^verbatim>\<open>Date\<close> is modelled by its time value, the
  milliseconds since the epoch; an optional string field is an \<open>option\<close>. Strings are
  lists of 8-bit characters.
\<close>

record Invoice =
  inv_id :: string
  inv_amount :: number
  inv_date :: int
  customerId :: string
  customerName :: string
  referenceId :: "string option"
  inv_description :: "string option"

record Transaction =
  txn_id :: string
  txn_amount :: number
  txn_date :: int
  txn_description :: string
  txn_reference :: "string option"

record Breakdown =
  amountDifference :: number
  dateDifference :: number
  amountMatch :: bool
  dateInWindow :: bool
  referenceSimilarity :: number

record MatchCandidate =
  invoiceId :: string
  transactionId :: string
  confidenceScore :: number
  amountScore :: number
  dateScore :: number
  referenceScore :: number
  breakdown :: Breakdown

record MatchingConfig =
  exactAmountMatch :: bool
  amountTolerance :: number
  amountWeight :: number
  dateWindowDays :: number
  dateWeight :: number
  referenceSimilarityThreshold :: number
  referenceWeight :: number
  minConfidenceScore :: number

definition DEFAULT_MATCHING_CONFIG :: MatchingConfig where
  "DEFAULT_MATCHING_CONFIG =
     \<lparr> exactAmountMatch = False,
       amountTolerance = Num (2 / 100),
       amountWeight = Num (4 / 10),
       dateWindowDays = Num 30,
       dateWeight = Num (3 / 10),
       referenceSimilarityThreshold = Num (5 / 10),
       referenceWeight = Num (3 / 10),
       minConfidenceScore = Num (5 / 10) \<rparr>"


section \<open>Dates\<close>

text \<open>
  \<^verbatim>\<open>normalizeDate\<close> rebuilds a date from its local year, month and day, which is the
  local midnight that starts its day. The host's time zone is the parameter \<open>tz\<close>, its
  offset from UTC in milliseconds, taken as constant (no daylight-saving change): local
  midnights are then the instants \<open>k * 86400000 - tz\<close>.
\<close>

definition msPerDay :: int where
  "msPerDay = 1000 * 60 * 60 * 24"

definition normalizeDate :: "int \<Rightarrow> int \<Rightarrow> int" where
  "normalizeDate tz d = ((d + tz) div msPerDay) * msPerDay - tz"

definition dateDifferenceDays :: "int \<Rightarrow> int \<Rightarrow> int \<Rightarrow> int" where
  "dateDifferenceDays tz date1 date2 =
     (let d1 = normalizeDate tz date1;
          d2 = normalizeDate tz date2;
          diffMs = \<bar>d1 - d2\<bar>
      in diffMs div msPerDay)"

text \<open>
  The time value of \<^verbatim>\<open>new Date('YYYY-MM-DD')\<close>: midnight UTC of that civil day, by the
  usual count of days from the civil date (proleptic Gregorian calendar).
\<close>

definition daysFromCivil :: "int \<Rightarrow> int \<Rightarrow> int \<Rightarrow> int" where
  "daysFromCivil y m d =
     (let y' = (if m \<le> 2 then y - 1 else y);
          era = y' div 400;
          yoe = y' - era * 400;
          doy = (153 * (if 2 < m then m - 3 else m + 9) + 2) div 5 + d - 1;
          doe = yoe * 365 + yoe div 4 - yoe div 100 + doy
      in era * 146097 + doe - 719468)"

definition dateUTC :: "int \<Rightarrow> int \<Rightarrow> int \<Rightarrow> int" where
  "dateUTC y m d = daysFromCivil y m d * msPerDay"


section \<open>Scoring functions\<close>

record AmountResult =
  as_score :: number
  as_isMatch :: bool
  as_difference :: number

record DateResult =
  ds_score :: number
  ds_inWindow :: bool
  ds_difference :: number

definition calculateAmountScore :: "number \<Rightarrow> number \<Rightarrow> MatchingConfig \<Rightarrow> AmountResult" where
  "calculateAmountScore invoiceAmount transactionAmount config =
     (let difference = js_abs (js_sub invoiceAmount transactionAmount);
          percentageDifference = js_mul (js_div difference invoiceAmount) (Num 100)
      in if js_eq invoiceAmount transactionAmount
         then \<lparr> as_score = Num 1, as_isMatch = True, as_difference = Num 0 \<rparr>
         else if exactAmountMatch config
         then \<lparr> as_score = Num 0, as_isMatch = False, as_difference = difference \<rparr>
         else
           let tolerance = js_div (js_mul (amountTolerance config) invoiceAmount) (Num 100)
           in if js_le difference tolerance
              then
                let score = js_sub (Num 1)
                      (js_div percentageDifference (js_mul (amountTolerance config) (Num 100)))
                in \<lparr> as_score = js_max (Num 0) score, as_isMatch = True,
                     as_difference = difference \<rparr>
              else
                let score = js_max (Num 0) (js_sub (Num 1) (js_div percentageDifference (Num 50)))
                in \<lparr> as_score = js_max (Num 0) (js_mul score (Num (5 / 10))),
                     as_isMatch = False, as_difference = difference \<rparr>)"

definition calculateDateScore :: "int \<Rightarrow> int \<Rightarrow> int \<Rightarrow> MatchingConfig \<Rightarrow> DateResult" where
  "calculateDateScore tz invoiceDate transactionDate config =
     (let difference = dateDifferenceDays tz invoiceDate transactionDate;
          inWindow = js_le (Num (of_int difference)) (dateWindowDays config)
      in if difference = 0
         then \<lparr> ds_score = Num 1, ds_inWindow = True, ds_difference = Num 0 \<rparr>
         else if \<not> inWindow
         then \<lparr> ds_score = Num (1 / 10), ds_inWindow = False,
                ds_difference = Num (of_int difference) \<rparr>
         else
           let score = js_sub (Num 1) (js_div (Num (of_int difference)) (dateWindowDays config))
           in \<lparr> ds_score = js_max (Num 0) score, ds_inWindow = True,
                ds_difference = Num (of_int difference) \<rparr>)"

definition calculateConfidenceScore ::
    "number \<Rightarrow> number \<Rightarrow> number \<Rightarrow> MatchingConfig \<Rightarrow> number" where
  "calculateConfidenceScore amountScore' dateScore' referenceScore' config =
     (let totalWeight =
            js_add (js_add (amountWeight config) (dateWeight config)) (referenceWeight config);
          normalizedAmountWeight = js_div (amountWeight config) totalWeight;
          normalizedDateWeight = js_div (dateWeight config) totalWeight;
          normalizedRefWeight = js_div (referenceWeight config) totalWeight;
          confidence =
            js_add (js_add (js_mul amountScore' normalizedAmountWeight)
                           (js_mul dateScore' normalizedDateWeight))
                   (js_mul referenceScore' normalizedRefWeight)
      in js_max (Num 0) (js_min (Num 1) confidence))"


section \<open>String similarity\<close>

text \<open>
  Characters are the code units \<open>0\<close> to \<open>255\<close>. White space
  (\<^verbatim>\<open>trim\<close>, \<^verbatim>\<open>\s\<close>) in that range is tab, line feed, vertical tab, form feed,
  carriage return, space and the no-break space; \<^verbatim>\<open>toLowerCase\<close> moves the capital
  letters of ASCII and of Latin-1 by 32 and keeps the length of the string.
\<close>

definition isWhiteSpace :: "char \<Rightarrow> bool" where
  "isWhiteSpace c = ((of_char c :: nat) \<in> {9, 10, 11, 12, 13, 32, 160})"

definition isDigit :: "char \<Rightarrow> bool" where
  "isDigit c = (48 \<le> (of_char c :: nat) \<and> (of_char c :: nat) \<le> 57)"

definition isUpper :: "char \<Rightarrow> bool" where
  "isUpper c = (65 \<le> (of_char c :: nat) \<and> (of_char c :: nat) \<le> 90)"

definition isLower :: "char \<Rightarrow> bool" where
  "isLower c = (97 \<le> (of_char c :: nat) \<and> (of_char c :: nat) \<le> 122)"

definition isLetter :: "char \<Rightarrow> bool" where
  "isLetter c = (isUpper c \<or> isLower c)"

definition isWordChar :: "char \<Rightarrow> bool" where
  "isWordChar c = (isLetter c \<or> isDigit c \<or> c = CHR ''_'')"

definition toLowerChar :: "char \<Rightarrow> char" where
  "toLowerChar c =
     (let n = (of_char c :: nat)
      in if isUpper c \<or> (192 \<le> n \<and> n \<le> 222 \<and> n \<noteq> 215) then char_of (n + 32) else c)"

definition toLowerCase :: "string \<Rightarrow> string" where
  "toLowerCase s = map toLowerChar s"

text \<open>\<^verbatim>\<open>toUpperCase\<close> is applied to matches of the code pattern only, which are ASCII.\<close>

definition toUpperChar :: "char \<Rightarrow> char" where
  "toUpperChar c = (if isLower c then char_of ((of_char c :: nat) - 32) else c)"

definition toUpperCase :: "string \<Rightarrow> string" where
  "toUpperCase s = map toUpperChar s"

definition trim :: "string \<Rightarrow> string" where
  "trim s = rev (dropWhile isWhiteSpace (rev (dropWhile isWhiteSpace s)))"

subsection \<open>Edit distance\<close>

definition cell :: "nat list list \<Rightarrow> nat \<Rightarrow> nat \<Rightarrow> nat" where
  "cell matrix j i = matrix ! j ! i"

definition set_cell :: "nat list list \<Rightarrow> nat \<Rightarrow> nat \<Rightarrow> nat \<Rightarrow> nat list list" where
  "set_cell matrix j i v = matrix[j := (matrix ! j)[i := v]]"

text \<open>
  The table has \<open>length s2 + 1\<close> rows of \<open>length s1 + 1\<close> cells, and every index the
  loops use is inside it.
\<close>

definition fillCell :: "string \<Rightarrow> string \<Rightarrow> nat \<Rightarrow> nat \<Rightarrow> nat list list \<Rightarrow> nat list list" where
  "fillCell s1 s2 j i matrix =
     (let cost = (if s1 ! (i - 1) = s2 ! (j - 1) then 0 else 1)
      in set_cell matrix j i
           (min (min (cell matrix j (i - 1) + 1) (cell matrix (j - 1) i + 1))
                (cell matrix (j - 1) (i - 1) + cost)))"

definition levenshteinDistance :: "string \<Rightarrow> string \<Rightarrow> nat" where
  "levenshteinDistance str1 str2 =
     (let s1 = trim (toLowerCase str1);
          s2 = trim (toLowerCase str2)
      in if length s1 = 0 then length s2
         else if length s2 = 0 then length s1
         else
           let matrix0 = replicate (length s2 + 1) (replicate (length s1 + 1) 0);
               matrix1 = fold (\<lambda>i m. set_cell m 0 i i) [0 ..< length s1 + 1] matrix0;
               matrix2 = fold (\<lambda>j m. set_cell m j 0 j) [0 ..< length s2 + 1] matrix1;
               matrix3 = fold (\<lambda>j m. fold (fillCell s1 s2 j) [1 ..< length s1 + 1] m)
                           [1 ..< length s2 + 1] matrix2
           in cell matrix3 (length s2) (length s1))"

definition levenshteinSimilarity :: "string \<Rightarrow> string \<Rightarrow> number" where
  "levenshteinSimilarity str1 str2 =
     (let distance = levenshteinDistance str1 str2;
          maxLength = max (length str1) (length str2)
      in if maxLength = 0 then Num 1
         else js_sub (Num 1) (js_div (Num (real distance)) (Num (real maxLength))))"

subsection \<open>Subsequence score\<close>

function fuzzyLoop :: "string \<Rightarrow> string \<Rightarrow> nat \<Rightarrow> nat \<Rightarrow> nat \<Rightarrow> nat \<times> nat \<times> nat" where
  "fuzzyLoop p t patternIndex targetIndex matchedCharacters =
     (if targetIndex < length t \<and> patternIndex < length p
      then if p ! patternIndex = t ! targetIndex
           then fuzzyLoop p t (patternIndex + 1) (targetIndex + 1) (matchedCharacters + 1)
           else fuzzyLoop p t patternIndex (targetIndex + 1) matchedCharacters
      else (patternIndex, targetIndex, matchedCharacters))"
  by pat_completeness auto
termination
  by (relation "measure (\<lambda>(p, t, pi, ti, mc). length t - ti)") auto

declare fuzzyLoop.simps [simp del]

definition fuzzyScore :: "string \<Rightarrow> string \<Rightarrow> number" where
  "fuzzyScore pattern target =
     (let p = trim (toLowerCase pattern);
          t = trim (toLowerCase target)
      in if length p = 0 then Num 1
         else if length t = 0 then Num 0
         else
           case fuzzyLoop p t 0 0 0 of (patternIndex, targetIndex, matchedCharacters) \<Rightarrow>
             if patternIndex = length p
             then
               let consecutiveBonus = js_div (Num (real matchedCharacters)) (Num (real (length p)));
                   positionBonus = js_sub (Num 1)
                     (js_div (js_div (Num (real targetIndex)) (Num (real (length t)))) (Num 2))
               in js_max (Num (5 / 10))
                    (js_min (Num 1) (js_div (js_add consecutiveBonus positionBonus) (Num 2)))
             else Num 0)"


subsection \<open>Token extraction\<close>

text \<open>
  The two patterns of \<^verbatim>\<open>extractReferences\<close> are matched the way a backtracking matcher
  does: a greedy quantifier tries its longest count first and gives characters back until
  the rest of the pattern matches. \<open>wordBoundary\<close> is \<^verbatim>\<open>\b\<close>: exactly one of the two
  neighbouring positions holds a word character. A matcher takes the character before
  the position and the text from the position on, and returns the length of its match.
\<close>

definition charAt :: "string \<Rightarrow> nat \<Rightarrow> char option" where
  "charAt s i = (if i < length s then Some (s ! i) else None)"

definition wordBoundary :: "char option \<Rightarrow> char option \<Rightarrow> bool" where
  "wordBoundary l r =
     ((case l of None \<Rightarrow> False | Some c \<Rightarrow> isWordChar c) \<noteq>
      (case r of None \<Rightarrow> False | Some c \<Rightarrow> isWordChar c))"

fun firstSome :: "('a \<Rightarrow> 'b option) \<Rightarrow> 'a list \<Rightarrow> 'b option" where
  "firstSome f [] = None"
| "firstSome f (x # xs) = (case f x of Some y \<Rightarrow> Some y | None \<Rightarrow> firstSome f xs)"

text \<open>\<^verbatim>\<open>/\b\d{3,}\b/\<close>\<close>

definition matchNumber :: "char option \<Rightarrow> string \<Rightarrow> nat option" where
  "matchNumber prev rest =
     (if wordBoundary prev (charAt rest 0)
      then firstSome
             (\<lambda>k. if wordBoundary (charAt rest (k - 1)) (charAt rest k) then Some k else None)
             (rev [3 ..< length (takeWhile isDigit rest) + 1])
      else None)"

text \<open>\<^verbatim>\<open>/\b[A-Z]{1,4}-?\d{1,10}\b/i\<close>\<close>

definition matchCode :: "char option \<Rightarrow> string \<Rightarrow> nat option" where
  "matchCode prev rest =
     (if wordBoundary prev (charAt rest 0)
      then firstSome
             (\<lambda>letters.
                firstSome
                  (\<lambda>hyphen.
                     if hyphen = 1 \<and> charAt rest letters \<noteq> Some CHR ''-'' then None
                     else firstSome
                            (\<lambda>digits.
                               let n = letters + hyphen + digits
                               in if wordBoundary (charAt rest (n - 1)) (charAt rest n)
                                  then Some n else None)
                            (rev [1 ..< min 10 (length (takeWhile isDigit
                                                  (drop (letters + hyphen) rest))) + 1]))
                  [1, 0])
             (rev [1 ..< min 4 (length (takeWhile isLetter rest)) + 1])
      else None)"

text \<open>
  \<^verbatim>\<open>String.prototype.match\<close> with the \<^verbatim>\<open>g\<close> flag: the matches from left to right, each
  search starting where the last match ended (one character further after an empty
  match or after none). No match at all gives \<^verbatim>\<open>null\<close>, for which the caller pushes nothing:
  the empty list here.
\<close>

function matchAll ::
    "(char option \<Rightarrow> string \<Rightarrow> nat option) \<Rightarrow> char option \<Rightarrow> string \<Rightarrow> string list" where
  "matchAll matcher prev [] = []"
| "matchAll matcher prev (c # cs) =
     (case matcher prev (c # cs) of
        None \<Rightarrow> matchAll matcher (Some c) cs
      | Some n \<Rightarrow>
          if n = 0 then [] # matchAll matcher (Some c) cs
          else take n (c # cs) # matchAll matcher (charAt (c # cs) (n - 1)) (drop n (c # cs)))"
  by pat_completeness auto
termination
  by (relation "measure (\<lambda>(matcher, prev, s). length s)") auto

text \<open>\<^verbatim>\<open>split(/[\s\-_(),]/g)\<close>: the pieces between separators, empty ones included.\<close>

definition isSeparator :: "char \<Rightarrow> bool" where
  "isSeparator c = (isWhiteSpace c \<or> c \<in> set ''-_(),'')"

fun splitOn :: "(char \<Rightarrow> bool) \<Rightarrow> string \<Rightarrow> string list" where
  "splitOn sep [] = [[]]"
| "splitOn sep (c # cs) =
     (if sep c then [] # splitOn sep cs
      else case splitOn sep cs of
             [] \<Rightarrow> [[c]]
           | w # ws \<Rightarrow> (c # w) # ws)"

text \<open>\<^verbatim>\<open>[...new Set(refs)]\<close>: the first occurrence of every element, in order.\<close>

definition dedupe :: "'a list \<Rightarrow> 'a list" where
  "dedupe xs = fold (\<lambda>x seen. if x \<in> set seen then seen else seen @ [x]) xs []"

definition extractReferences :: "string \<Rightarrow> string list" where
  "extractReferences input =
     (if input = [] then []
      else
        let numberMatches = matchAll matchNumber None input;
            refs1 = numberMatches;
            alphanumericMatches = matchAll matchCode None input;
            refs2 = refs1 @ map toUpperCase alphanumericMatches;
            words = filter (\<lambda>w. 2 < length w) (splitOn isSeparator (toLowerCase input));
            refs3 = refs2 @ words
        in dedupe refs3)"

subsection \<open>Token-set comparison\<close>

text \<open>The inner loop, with its \<^verbatim>\<open>break\<close> at an exact match.\<close>

fun bestMatchLoop :: "string \<Rightarrow> string list \<Rightarrow> number \<Rightarrow> number" where
  "bestMatchLoop ref1 [] bestMatch = bestMatch"
| "bestMatchLoop ref1 (ref2 # rest) bestMatch =
     (if ref1 = ref2 then Num 1
      else
        let similarity = levenshteinSimilarity ref1 ref2;
            bestMatch1 = js_max bestMatch similarity;
            fuzzy = fuzzyScore ref1 ref2;
            bestMatch2 = js_max bestMatch1 fuzzy
        in bestMatchLoop ref1 rest bestMatch2)"

definition compareReferenceSets :: "string list \<Rightarrow> string list \<Rightarrow> number" where
  "compareReferenceSets refs1 refs2 =
     (if length refs1 = 0 \<and> length refs2 = 0 then Num 1
      else if length refs1 = 0 \<or> length refs2 = 0 then Num 0
      else
        case fold (\<lambda>ref1 (totalScore, comparisons).
                     (js_add totalScore (bestMatchLoop ref1 refs2 (Num 0)), comparisons + 1))
                  refs1 (Num 0, 0 :: nat)
        of (totalScore, comparisons) \<Rightarrow>
          if 0 < comparisons then js_div totalScore (Num (real comparisons)) else Num 0)"


section \<open>Reference score\<close>

definition orEmpty :: "string option \<Rightarrow> string" where
  "orEmpty s = (case s of None \<Rightarrow> [] | Some v \<Rightarrow> v)"

definition calculateReferenceScore :: "Invoice \<Rightarrow> Transaction \<Rightarrow> MatchingConfig \<Rightarrow> number" where
  "calculateReferenceScore invoice transaction config =
     (let invoiceRefs = extractReferences
            (customerName invoice @ '' '' @ orEmpty (referenceId invoice) @ '' '' @
             orEmpty (inv_description invoice));
          transactionRefs = extractReferences (txn_description transaction)
      in if length invoiceRefs = 0 \<or> length transactionRefs = 0 then Num (3 / 10)
         else
           let similarity = compareReferenceSets invoiceRefs transactionRefs;
               customerSimilarity =
                 levenshteinSimilarity (customerName invoice) (txn_description transaction)
           in js_max similarity (js_mul customerSimilarity (Num (8 / 10))))"


section \<open>Candidate generator\<close>

text \<open>
  \<^verbatim>\<open>Array.prototype.sort\<close> with a comparison function is stable, and \<open>a\<close> comes after
  \<open>b\<close> when the comparison of \<open>a\<close> with \<open>b\<close> is positive: stable insertion does that.
  (For a comparison function that is not consistent the standard leaves the order open;
  the result is a permutation in every case.)
\<close>

fun insertSorted :: "('a \<Rightarrow> 'a \<Rightarrow> number) \<Rightarrow> 'a \<Rightarrow> 'a list \<Rightarrow> 'a list" where
  "insertSorted cmp x [] = [x]"
| "insertSorted cmp x (y # ys) =
     (if js_gt (cmp x y) (Num 0) then y # insertSorted cmp x ys else x # y # ys)"

definition array_sort :: "('a \<Rightarrow> 'a \<Rightarrow> number) \<Rightarrow> 'a list \<Rightarrow> 'a list" where
  "array_sort cmp xs = foldr (insertSorted cmp) xs []"

text \<open>The comparison function \<^verbatim>\<open>(a, b) => b.confidenceScore - a.confidenceScore\<close>.\<close>

definition byConfidenceDesc :: "MatchCandidate \<Rightarrow> MatchCandidate \<Rightarrow> number" where
  "byConfidenceDesc a b = js_sub (confidenceScore b) (confidenceScore a)"

definition findCandidatesForInvoice ::
    "int \<Rightarrow> Invoice \<Rightarrow> Transaction list \<Rightarrow> MatchingConfig \<Rightarrow> MatchCandidate list" where
  "findCandidatesForInvoice tz invoice transactions config =
     (let candidates =
            fold (\<lambda>transaction candidates.
                    let amountResult =
                          calculateAmountScore (inv_amount invoice) (txn_amount transaction) config;
                        dateResult =
                          calculateDateScore tz (inv_date invoice) (txn_date transaction) config;
                        referenceScore' = calculateReferenceScore invoice transaction config;
                        confidenceScore' =
                          calculateConfidenceScore (as_score amountResult) (ds_score dateResult)
                            referenceScore' config
                    in if js_ge confidenceScore' (minConfidenceScore config)
                       then candidates @
                              [\<lparr> invoiceId = inv_id invoice,
                                 transactionId = txn_id transaction,
                                 confidenceScore = confidenceScore',
                                 amountScore = as_score amountResult,
                                 dateScore = ds_score dateResult,
                                 referenceScore = referenceScore',
                                 breakdown =
                                   \<lparr> amountDifference = as_difference amountResult,
                                     dateDifference = ds_difference dateResult,
                                     amountMatch = as_isMatch amountResult,
                                     dateInWindow = ds_inWindow dateResult,
                                     referenceSimilarity = referenceScore' \<rparr> \<rparr>]
                       else candidates)
                 transactions []
      in array_sort byConfidenceDesc candidates)"

text \<open>
  \<^verbatim>\<open>Partial<MatchingConfig>\<close>: every field may be absent, and the spread
  \<^verbatim>\<open>{...DEFAULT_MATCHING_CONFIG, ...config}\<close> takes the fields present over the defaults.
\<close>

record PartialConfig =
  p_exactAmountMatch :: "bool option"
  p_amountTolerance :: "number option"
  p_amountWeight :: "number option"
  p_dateWindowDays :: "number option"
  p_dateWeight :: "number option"
  p_referenceSimilarityThreshold :: "number option"
  p_referenceWeight :: "number option"
  p_minConfidenceScore :: "number option"

definition orDefault :: "'a \<Rightarrow> 'a option \<Rightarrow> 'a" where
  "orDefault d v = (case v of None \<Rightarrow> d | Some x \<Rightarrow> x)"

definition mergeConfig :: "MatchingConfig \<Rightarrow> PartialConfig \<Rightarrow> MatchingConfig" where
  "mergeConfig defaults config =
     \<lparr> exactAmountMatch = orDefault (exactAmountMatch defaults) (p_exactAmountMatch config),
       amountTolerance = orDefault (amountTolerance defaults) (p_amountTolerance config),
       amountWeight = orDefault (amountWeight defaults) (p_amountWeight config),
       dateWindowDays = orDefault (dateWindowDays defaults) (p_dateWindowDays config),
       dateWeight = orDefault (dateWeight defaults) (p_dateWeight config),
       referenceSimilarityThreshold =
         orDefault (referenceSimilarityThreshold defaults) (p_referenceSimilarityThreshold config),
       referenceWeight = orDefault (referenceWeight defaults) (p_referenceWeight config),
       minConfidenceScore = orDefault (minConfidenceScore defaults) (p_minConfidenceScore config) \<rparr>"

definition emptyConfig :: PartialConfig where
  "emptyConfig =
     \<lparr> p_exactAmountMatch = None, p_amountTolerance = None, p_amountWeight = None,
       p_dateWindowDays = None, p_dateWeight = None, p_referenceSimilarityThreshold = None,
       p_referenceWeight = None, p_minConfidenceScore = None \<rparr>"

definition findMatches ::
    "int \<Rightarrow> Invoice list \<Rightarrow> Transaction list \<Rightarrow> PartialConfig \<Rightarrow> MatchCandidate list" where
  "findMatches tz invoices transactions config =
     (let finalConfig = mergeConfig DEFAULT_MATCHING_CONFIG config;
          allCandidates =
            fold (\<lambda>invoice allCandidates.
                    let candidates = findCandidatesForInvoice tz invoice transactions finalConfig
                    in allCandidates @ candidates)
                 invoices []
      in array_sort byConfidenceDesc allCandidates)"


section \<open>Result analytics\<close>

text \<open>
  The optional parameter \<^verbatim>\<open>maxConfidence\<close> is \<open>None\<close> when the caller omits it. The
  condition \<^verbatim>\<open>maxConfidence ? ... : true\<close> tests the truth value of the number.
\<close>

definition filterByConfidence ::
    "MatchCandidate list \<Rightarrow> number \<Rightarrow> number option \<Rightarrow> MatchCandidate list" where
  "filterByConfidence candidates minConfidence maxConfidence =
     filter (\<lambda>c.
        let meetsMin = js_ge (confidenceScore c) minConfidence;
            meetsMax = (case maxConfidence of
                          None \<Rightarrow> True
                        | Some m \<Rightarrow> if truthy m then js_le (confidenceScore c) m else True)
        in meetsMin \<and> meetsMax) candidates"

text \<open>
  A \<^verbatim>\<open>Map<string, MatchCandidate[]>\<close> is a finite map. The group of a key is created
  empty at the key's first candidate, and every candidate is pushed on its group.
\<close>

definition groupPush ::
    "string \<Rightarrow> MatchCandidate \<Rightarrow> (string \<rightharpoonup> MatchCandidate list) \<Rightarrow>
     (string \<rightharpoonup> MatchCandidate list)" where
  "groupPush key candidate grouped =
     (let grouped1 = (if grouped key = None then grouped(key \<mapsto> []) else grouped)
      in case grouped1 key of
           None \<Rightarrow> grouped1
         | Some ms \<Rightarrow> grouped1(key \<mapsto> ms @ [candidate]))"

definition sortGroups ::
    "(string \<rightharpoonup> MatchCandidate list) \<Rightarrow> (string \<rightharpoonup> MatchCandidate list)" where
  "sortGroups grouped = (\<lambda>key. map_option (array_sort byConfidenceDesc) (grouped key))"

definition groupByInvoice :: "MatchCandidate list \<Rightarrow> (string \<rightharpoonup> MatchCandidate list)" where
  "groupByInvoice candidates =
     sortGroups (fold (\<lambda>candidate. groupPush (invoiceId candidate) candidate)
                      candidates Map.empty)"

definition groupByTransaction :: "MatchCandidate list \<Rightarrow> (string \<rightharpoonup> MatchCandidate list)" where
  "groupByTransaction candidates =
     sortGroups (fold (\<lambda>candidate. groupPush (transactionId candidate) candidate)
                      candidates Map.empty)"

text \<open>
  \<^verbatim>\<open>byInvoice.get(c.invoiceId)!.length\<close>: reading the length of a group that the map
  does not hold is a \<^verbatim>\<open>TypeError\<close>, which ends the call.
\<close>

datatype error = TypeError

definition groupLength :: "(string \<rightharpoonup> MatchCandidate list) \<Rightarrow> string \<Rightarrow> error + nat" where
  "groupLength grouped key =
     (case grouped key of None \<Rightarrow> Inl TypeError | Some ms \<Rightarrow> Inr (length ms))"

fun filterE :: "('a \<Rightarrow> error + bool) \<Rightarrow> 'a list \<Rightarrow> error + 'a list" where
  "filterE p [] = Inr []"
| "filterE p (x # xs) =
     (case p x of
        Inl e \<Rightarrow> Inl e
      | Inr keep \<Rightarrow>
          (case filterE p xs of
             Inl e \<Rightarrow> Inl e
           | Inr ys \<Rightarrow> Inr (if keep then x # ys else ys)))"

definition findOneToOneMatches :: "MatchCandidate list \<Rightarrow> error + MatchCandidate list" where
  "findOneToOneMatches candidates =
     (let byInvoice = groupByInvoice candidates;
          byTransaction = groupByTransaction candidates
      in filterE (\<lambda>c.
           case groupLength byInvoice (invoiceId c) of
             Inl e \<Rightarrow> Inl e
           | Inr n \<Rightarrow>
               (case groupLength byTransaction (transactionId c) of
                  Inl e \<Rightarrow> Inl e
                | Inr m \<Rightarrow>
                    let invoiceMatches = (n = 1);
                        transactionMatches = (m = 1)
                    in Inr (invoiceMatches \<and> transactionMatches))) candidates)"

definition findAmbiguousMatches :: "MatchCandidate list \<Rightarrow> error + MatchCandidate list" where
  "findAmbiguousMatches candidates =
     (let byInvoice = groupByInvoice candidates;
          byTransaction = groupByTransaction candidates
      in filterE (\<lambda>c.
           case groupLength byInvoice (invoiceId c) of
             Inl e \<Rightarrow> Inl e
           | Inr n \<Rightarrow>
               (case groupLength byTransaction (transactionId c) of
                  Inl e \<Rightarrow> Inl e
                | Inr m \<Rightarrow>
                    let invoiceMatches = (1 < n);
                        transactionMatches = (1 < m)
                    in Inr (invoiceMatches \<or> transactionMatches))) candidates)"


section \<open>Notions of the statements\<close>

subsection \<open>Numbers\<close>

text \<open>Finite numbers, and numbers between 0 and 1, the bounds included.\<close>

fun isFinite :: "number \<Rightarrow> bool" where
  "isFinite (Num a) = True"
| "isFinite x = False"

definition inUnitInterval :: "number \<Rightarrow> bool" where
  "inUnitInterval x = (js_le (Num 0) x \<and> js_le x (Num 1))"

subsection \<open>Candidates of the cross product\<close>

text \<open>
  The candidate that the loop of \<^verbatim>\<open>findCandidatesForInvoice\<close> builds for a pair, the
  test it applies before keeping it, and the candidates of one invoice that pass the
  test, in the order of the transactions.
\<close>

definition candidateOf :: "int \<Rightarrow> Invoice \<Rightarrow> Transaction \<Rightarrow> MatchingConfig \<Rightarrow> MatchCandidate" where
  "candidateOf tz invoice transaction config =
     (let amountResult =
            calculateAmountScore (inv_amount invoice) (txn_amount transaction) config;
          dateResult = calculateDateScore tz (inv_date invoice) (txn_date transaction) config;
          referenceScore' = calculateReferenceScore invoice transaction config;
          confidenceScore' =
            calculateConfidenceScore (as_score amountResult) (ds_score dateResult)
              referenceScore' config
      in \<lparr> invoiceId = inv_id invoice,
           transactionId = txn_id transaction,
           confidenceScore = confidenceScore',
           amountScore = as_score amountResult,
           dateScore = ds_score dateResult,
           referenceScore = referenceScore',
           breakdown =
             \<lparr> amountDifference = as_difference amountResult,
               dateDifference = ds_difference dateResult,
               amountMatch = as_isMatch amountResult,
               dateInWindow = ds_inWindow dateResult,
               referenceSimilarity = referenceScore' \<rparr> \<rparr>)"

definition meetsThreshold :: "MatchingConfig \<Rightarrow> MatchCandidate \<Rightarrow> bool" where
  "meetsThreshold config c = js_ge (confidenceScore c) (minConfidenceScore config)"

definition keptCandidates ::
    "int \<Rightarrow> Invoice \<Rightarrow> Transaction list \<Rightarrow> MatchingConfig \<Rightarrow> MatchCandidate list" where
  "keptCandidates tz invoice transactions config =
     filter (meetsThreshold config) (map (\<lambda>t. candidateOf tz invoice t config) transactions)"

text \<open>The order of a list sorted by descending confidence.\<close>

definition confidenceDescending :: "MatchCandidate \<Rightarrow> MatchCandidate \<Rightarrow> bool" where
  "confidenceDescending a b = js_ge (confidenceScore a) (confidenceScore b)"

subsection \<open>Groups\<close>

text \<open>
  The sizes of the two groups of a candidate: the number of candidates of its invoice,
  and of its transaction.
\<close>

definition invoiceGroupSize :: "MatchCandidate list \<Rightarrow> MatchCandidate \<Rightarrow> nat" where
  "invoiceGroupSize cs c = length (filter (\<lambda>d. invoiceId d = invoiceId c) cs)"

definition transactionGroupSize :: "MatchCandidate list \<Rightarrow> MatchCandidate \<Rightarrow> nat" where
  "transactionGroupSize cs c = length (filter (\<lambda>d. transactionId d = transactionId c) cs)"

subsection \<open>Edit-distance table\<close>

text \<open>
  The bound that every cell of the edit-distance table keeps: the cell of row \<open>j\<close> and
  column \<open>i\<close> is at most the larger of \<open>i\<close> and \<open>j\<close>, in a table of \<open>m + 1\<close> rows of
  \<open>n + 1\<close> cells.
\<close>

definition tableBounded :: "nat list list \<Rightarrow> nat \<Rightarrow> nat \<Rightarrow> bool" where
  "tableBounded matrix m n =
     (length matrix = m + 1 \<and>
      (\<forall>j \<in> {..m}. length (matrix ! j) = n + 1 \<and> (\<forall>i \<in> {..n}. cell matrix j i \<le> max i j)))"

subsection \<open>Configurations and records of the scenarios\<close>

text \<open>The default configuration with the three weights set to zero.\<close>

definition zeroWeights :: MatchingConfig where
  "zeroWeights =
     DEFAULT_MATCHING_CONFIG \<lparr> amountWeight := Num 0, dateWeight := Num 0,
                               referenceWeight := Num 0 \<rparr>"

text \<open>A candidate with given identifiers and confidence, all other fields at a full match.\<close>

definition candidateWith :: "string \<Rightarrow> string \<Rightarrow> number \<Rightarrow> MatchCandidate" where
  "candidateWith invId txnId confidence =
     \<lparr> invoiceId = invId, transactionId = txnId, confidenceScore = confidence,
       amountScore = Num 1, dateScore = Num 1, referenceScore = Num 1,
       breakdown = \<lparr> amountDifference = Num 0, dateDifference = Num 0, amountMatch = True,
                     dateInWindow = True, referenceSimilarity = Num 1 \<rparr> \<rparr>"

text \<open>Scenario A: the invoice and the transaction, for any identifiers.\<close>

definition scenarioInvoice :: "string \<Rightarrow> string \<Rightarrow> Invoice" where
  "scenarioInvoice iid cid =
     \<lparr> inv_id = iid, inv_amount = Num 1000, inv_date = dateUTC 2024 1 15, customerId = cid,
       customerName = ''Test Company'', referenceId = None, inv_description = None \<rparr>"

definition scenarioTransaction :: "string \<Rightarrow> string option \<Rightarrow> Transaction" where
  "scenarioTransaction tid ref =
     \<lparr> txn_id = tid, txn_amount = Num 1000, txn_date = dateUTC 2024 1 15,
       txn_description = ''Test Company REF-001 payment'', txn_reference = ref \<rparr>"


section \<open>Arithmetic on numbers\<close>

lemma js_add_NaN_right [simp]: "js_add x NaN = NaN"
  by (cases x) simp_all

lemma js_mul_NaN_right [simp]: "js_mul x NaN = NaN"
  by (cases x) simp_all

lemma js_div_NaN_right [simp]: "js_div x NaN = NaN"
  by (cases x) simp_all

lemma js_le_NaN_right [simp]: "js_le x NaN = False"
  by (cases x) simp_all

lemma js_lt_NaN_right [simp]: "js_lt x NaN = False"
  by (cases x) simp_all

lemma js_max_Num [simp]: "js_max (Num a) (Num b) = Num (max a b)"
  by (simp add: js_max_def max_def)

lemma js_min_Num [simp]: "js_min (Num a) (Num b) = Num (min a b)"
  by (simp add: js_min_def min_def)

lemma js_sub_Num [simp]: "js_sub (Num a) (Num b) = Num (a - b)"
  by (simp add: js_sub_def)

lemma js_max_NaN [simp]: "js_max x NaN = NaN" "js_max NaN y = NaN"
  by (simp_all add: js_max_def)

lemma js_min_NaN [simp]: "js_min x NaN = NaN" "js_min NaN y = NaN"
  by (simp_all add: js_min_def)

text \<open>The clamp of the composer yields \<open>NaN\<close> or a number between 0 and 1.\<close>

lemma clamp_cases:
  "js_max (Num 0) (js_min (Num 1) x) = NaN \<or>
   (\<exists>c. js_max (Num 0) (js_min (Num 1) x) = Num c \<and> 0 \<le> c \<and> c \<le> 1)"
  by (cases x) (simp_all add: js_min_def js_max_def)


section \<open>Confidence composer\<close>

text \<open>
  C1: with all three weights zero the composer must fail with an InvalidConfiguration
  fault and not divide by the zero total weight. The function does not check the total
  weight (the other divisions of the engine guard a zero denominator): at the scores
  1, 1, 1 and zero weights it divides zero by zero and returns \<open>NaN\<close>, which is neither
  a fault nor the number between 0 and 1 that its clamp is there to give.
\<close>

theorem zero_weights_compose_to_NaN:
  "calculateConfidenceScore (Num 1) (Num 1) (Num 1) zeroWeights = NaN \<and>
   \<not> inUnitInterval (calculateConfidenceScore (Num 1) (Num 1) (Num 1) zeroWeights)"
  by (simp add: calculateConfidenceScore_def zeroWeights_def DEFAULT_MATCHING_CONFIG_def
      sgn_inf_def inUnitInterval_def)

text \<open>The same happens at every triple of scores, whenever the three weights are zero.\<close>

lemma zero_weights_always_NaN:
  assumes "amountWeight config = Num 0"
    and "dateWeight config = Num 0"
    and "referenceWeight config = Num 0"
  shows "calculateConfidenceScore a d r config = NaN"
  using assms by (simp add: calculateConfidenceScore_def sgn_inf_def)

lemma calculateConfidenceScore_Num:
  assumes "amountWeight c = Num wa" "dateWeight c = Num wd" "referenceWeight c = Num wr"
    and "wa + wd + wr \<noteq> 0"
  shows "calculateConfidenceScore (Num a) (Num d) (Num r) c =
     Num (max 0 (min 1 (a * (wa / (wa + wd + wr)) + d * (wd / (wa + wd + wr)) +
                        r * (wr / (wa + wd + wr)))))"
  using assms by (simp add: calculateConfidenceScore_def Let_def)

text \<open>
  C7: with the weights fixed, nonnegative and of positive total, the composed confidence
  does not decrease when one component score grows and the other two stay.
\<close>

theorem calculateConfidenceScore_monotone:
  assumes "amountWeight c = Num wa" "dateWeight c = Num wd" "referenceWeight c = Num wr"
    and "0 \<le> wa" "0 \<le> wd" "0 \<le> wr" "0 < wa + wd + wr"
  shows "(a \<le> a' \<longrightarrow>
            js_le (calculateConfidenceScore (Num a) (Num d) (Num r) c)
                  (calculateConfidenceScore (Num a') (Num d) (Num r) c)) \<and>
         (d \<le> d' \<longrightarrow>
            js_le (calculateConfidenceScore (Num a) (Num d) (Num r) c)
                  (calculateConfidenceScore (Num a) (Num d') (Num r) c)) \<and>
         (r \<le> r' \<longrightarrow>
            js_le (calculateConfidenceScore (Num a) (Num d) (Num r) c)
                  (calculateConfidenceScore (Num a) (Num d) (Num r') c))"
proof -
  let ?T = "wa + wd + wr"
  have T: "?T \<noteq> 0" using assms(7) by simp
  have na: "0 \<le> wa / ?T" and nd: "0 \<le> wd / ?T" and nr: "0 \<le> wr / ?T"
    using assms(4-7) by simp_all
  have A: "a * (wa / ?T) \<le> a' * (wa / ?T)" if "a \<le> a'"
    using that na by (rule mult_right_mono)
  have D: "d * (wd / ?T) \<le> d' * (wd / ?T)" if "d \<le> d'"
    using that nd by (rule mult_right_mono)
  have R: "r * (wr / ?T) \<le> r' * (wr / ?T)" if "r \<le> r'"
    using that nr by (rule mult_right_mono)
  have mono: "max 0 (min 1 x) \<le> max 0 (min 1 y)" if "x \<le> y" for x y :: real
    using that by (simp add: max_def min_def)
  show ?thesis
    unfolding calculateConfidenceScore_Num [OF assms(1-3) T] js_le.simps
    using A D R by (intro conjI impI mono) simp_all
qed

theorem calculateConfidenceScore_monotone_witness:
  "(1 / 5 :: real) \<le> 9 / 10 \<and>
   js_le (calculateConfidenceScore (Num (1 / 5)) (Num (1 / 2)) (Num (3 / 10))
            DEFAULT_MATCHING_CONFIG)
         (calculateConfidenceScore (Num (9 / 10)) (Num (1 / 2)) (Num (3 / 10))
            DEFAULT_MATCHING_CONFIG)"
proof -
  have w: "amountWeight DEFAULT_MATCHING_CONFIG = Num (4 / 10)"
    "dateWeight DEFAULT_MATCHING_CONFIG = Num (3 / 10)"
    "referenceWeight DEFAULT_MATCHING_CONFIG = Num (3 / 10)"
    by (simp_all add: DEFAULT_MATCHING_CONFIG_def)
  have p: "(0 :: real) \<le> 4 / 10" "(0 :: real) \<le> 3 / 10" "(0 :: real) \<le> 3 / 10"
    "(0 :: real) < 4 / 10 + 3 / 10 + 3 / 10"
    by simp_all
  from calculateConfidenceScore_monotone [OF w p, of "1 / 5" "9 / 10" "1 / 2" "3 / 10"]
  show ?thesis by simp
qed


section \<open>Amount score\<close>

lemma calculateAmountScore_general:
  assumes "0 < a" "a \<noteq> b" "\<not> exactAmountMatch c" "amountTolerance c = Num t"
  shows "calculateAmountScore (Num a) (Num b) c =
     (if \<bar>a - b\<bar> \<le> t * a / 100
      then \<lparr> as_score = Num (1 - \<bar>a - b\<bar> / a * 100 / (t * 100)), as_isMatch = True,
             as_difference = Num \<bar>a - b\<bar> \<rparr>
      else \<lparr> as_score = Num (max 0 (5 / 10 * (1 - \<bar>a - b\<bar> / a * 100 / 50))),
             as_isMatch = False, as_difference = Num \<bar>a - b\<bar> \<rparr>) \<and>
     (\<bar>a - b\<bar> \<le> t * a / 100 \<longrightarrow> 0 < t \<and> 99 / 100 \<le> 1 - \<bar>a - b\<bar> / a * 100 / (t * 100))"
proof (cases "\<bar>a - b\<bar> \<le> t * a / 100")
  case True
  have d: "0 < \<bar>a - b\<bar>" using assms by simp
  then have "0 < t * a / 100" using True by linarith
  then have "0 < t * a" by simp
  then have t: "0 < t" using assms(1) by (simp add: zero_less_mult_iff)
  have "\<bar>a - b\<bar> * 100 \<le> a * t" using True by (simp add: mult.commute)
  moreover have "0 < a * t" using t assms(1) by simp
  ultimately have "\<bar>a - b\<bar> * 100 / (a * t) \<le> 1" by simp
  then have "\<bar>a - b\<bar> / (a * t) \<le> 1 / 100" by simp
  then have le: "\<bar>a - b\<bar> / a * 100 / (t * 100) \<le> 1 / 100" by simp
  then have "0 \<le> 1 - \<bar>a - b\<bar> / a * 100 / (t * 100)" by linarith
  then show ?thesis using True assms t le
    by (simp add: calculateAmountScore_def Let_def js_eq_def max_def)
next
  case False
  then show ?thesis using assms
    by (simp add: calculateAmountScore_def Let_def js_eq_def max_def)
qed

text \<open>
  C2: for finite amounts with the invoice amount positive, the amounts unequal and
  \<open>exactAmountMatch\<close> unset, the result is the formula of the specification: with
  \<open>percentDiff = |diff| / invoiceAmount * 100\<close> and
  \<open>tolerance = amountTolerance * invoiceAmount / 100\<close>, inside the tolerance the score is
  \<open>1 - percentDiff / (amountTolerance * 100)\<close> with a match, outside it is
  \<open>max 0 (0.5 * (1 - percentDiff / 50))\<close> without one, and the score is never below 0.
  Equal amounts give score 1, a match and difference 0; unequal amounts under
  \<open>exactAmountMatch\<close> give score 0 and no match.
\<close>

theorem calculateAmountScore_formula:
  assumes "amountTolerance c = Num t"
  shows "(calculateAmountScore (Num a) (Num a) c =
            \<lparr> as_score = Num 1, as_isMatch = True, as_difference = Num 0 \<rparr>) \<and>
         (a \<noteq> b \<and> exactAmountMatch c \<longrightarrow>
            calculateAmountScore (Num a) (Num b) c =
              \<lparr> as_score = Num 0, as_isMatch = False, as_difference = Num \<bar>a - b\<bar> \<rparr>) \<and>
         (0 < a \<and> a \<noteq> b \<and> \<not> exactAmountMatch c \<longrightarrow>
            calculateAmountScore (Num a) (Num b) c =
              (let percentDiff = \<bar>a - b\<bar> / a * 100;
                   tolerance = t * a / 100
               in if \<bar>a - b\<bar> \<le> tolerance
                  then \<lparr> as_score = Num (1 - percentDiff / (t * 100)), as_isMatch = True,
                         as_difference = Num \<bar>a - b\<bar> \<rparr>
                  else \<lparr> as_score = Num (max 0 (5 / 10 * (1 - percentDiff / 50))),
                         as_isMatch = False, as_difference = Num \<bar>a - b\<bar> \<rparr>) \<and>
            (\<exists>s. as_score (calculateAmountScore (Num a) (Num b) c) = Num s \<and> 0 \<le> s))"
proof (intro conjI impI)
  show "calculateAmountScore (Num a) (Num a) c =
          \<lparr> as_score = Num 1, as_isMatch = True, as_difference = Num 0 \<rparr>"
    by (simp add: calculateAmountScore_def Let_def js_eq_def)
next
  assume "a \<noteq> b \<and> exactAmountMatch c"
  then show "calculateAmountScore (Num a) (Num b) c =
      \<lparr> as_score = Num 0, as_isMatch = False, as_difference = Num \<bar>a - b\<bar> \<rparr>"
    by (simp add: calculateAmountScore_def Let_def js_eq_def)
next
  assume h: "0 < a \<and> a \<noteq> b \<and> \<not> exactAmountMatch c"
  then have g: "0 < a" "a \<noteq> b" "\<not> exactAmountMatch c" by simp_all
  note G = calculateAmountScore_general [OF g assms]
  from G show "calculateAmountScore (Num a) (Num b) c =
              (let percentDiff = \<bar>a - b\<bar> / a * 100;
                   tolerance = t * a / 100
               in if \<bar>a - b\<bar> \<le> tolerance
                  then \<lparr> as_score = Num (1 - percentDiff / (t * 100)), as_isMatch = True,
                         as_difference = Num \<bar>a - b\<bar> \<rparr>
                  else \<lparr> as_score = Num (max 0 (5 / 10 * (1 - percentDiff / 50))),
                         as_isMatch = False, as_difference = Num \<bar>a - b\<bar> \<rparr>)"
    by (simp only: Let_def)
  show "\<exists>s. as_score (calculateAmountScore (Num a) (Num b) c) = Num s \<and> 0 \<le> s"
  proof (cases "\<bar>a - b\<bar> \<le> t * a / 100")
    case True
    with G have e: "as_score (calculateAmountScore (Num a) (Num b) c) =
        Num (1 - \<bar>a - b\<bar> / a * 100 / (t * 100))"
      and b: "99 / 100 \<le> 1 - \<bar>a - b\<bar> / a * 100 / (t * 100)" by simp_all
    from b have "0 \<le> 1 - \<bar>a - b\<bar> / a * 100 / (t * 100)" by linarith
    with e show ?thesis by blast
  next
    case False
    with G have "as_score (calculateAmountScore (Num a) (Num b) c) =
        Num (max 0 (5 / 10 * (1 - \<bar>a - b\<bar> / a * 100 / 50)))" by simp
    then show ?thesis by simp
  qed
qed

theorem calculateAmountScore_formula_witness:
  "(0 :: real) < 1000 \<and> (1000 :: real) \<noteq> 1015 \<and> \<not> exactAmountMatch DEFAULT_MATCHING_CONFIG \<and>
   calculateAmountScore (Num 1000) (Num 1015) DEFAULT_MATCHING_CONFIG =
     \<lparr> as_score = Num (485 / 1000), as_isMatch = False, as_difference = Num 15 \<rparr>"
proof -
  have t: "amountTolerance DEFAULT_MATCHING_CONFIG = Num (2 / 100)"
    and e: "\<not> exactAmountMatch DEFAULT_MATCHING_CONFIG"
    by (simp_all add: DEFAULT_MATCHING_CONFIG_def)
  from calculateAmountScore_formula [OF t, of 1000 1015] e show ?thesis
    by (simp add: Let_def)
qed


section \<open>Date score\<close>


lemma msPerDay_pos: "0 < msPerDay"
  by (simp add: msPerDay_def)

lemma dateDifferenceDays_eq:
  "dateDifferenceDays tz a b = \<bar>(a + tz) div msPerDay - (b + tz) div msPerDay\<bar>"
proof -
  let ?x = "(a + tz) div msPerDay" and ?y = "(b + tz) div msPerDay"
  have "normalizeDate tz a - normalizeDate tz b = (?x - ?y) * msPerDay"
    by (simp add: normalizeDate_def algebra_simps)
  then have "\<bar>normalizeDate tz a - normalizeDate tz b\<bar> = \<bar>?x - ?y\<bar> * msPerDay"
    using msPerDay_pos by (simp add: abs_mult)
  then have "\<bar>normalizeDate tz a - normalizeDate tz b\<bar> div msPerDay = \<bar>?x - ?y\<bar>"
    using msPerDay_pos by simp
  then show ?thesis
    by (simp add: dateDifferenceDays_def Let_def)
qed

lemma dateUTC_div: "(dateUTC y m d + k * msPerDay) div msPerDay = daysFromCivil y m d + k"
  using msPerDay_pos by (simp add: dateUTC_def)

lemma dateDifferenceDays_nonneg: "0 \<le> dateDifferenceDays tz a b"
  by (simp add: dateDifferenceDays_eq)

lemma days_2024_01_15: "daysFromCivil 2024 1 15 = 19737"
  by (simp add: daysFromCivil_def)

lemma days_2024_03_15: "daysFromCivil 2024 3 15 = 19797"
  by (simp add: daysFromCivil_def)


lemma dateDifferenceDays_dateUTC:
  "dateDifferenceDays tz (dateUTC y m d) (dateUTC y' m' d') =
     \<bar>daysFromCivil y m d - daysFromCivil y' m' d'\<bar>"
proof -
  have "(k * msPerDay + tz) div msPerDay = k + tz div msPerDay" for k
    using msPerDay_pos by simp
  then show ?thesis
    by (simp add: dateDifferenceDays_eq dateUTC_def)
qed

lemma dateDifferenceDays_scenario:
  "dateDifferenceDays tz (dateUTC 2024 1 15) (dateUTC 2024 3 15) = 60"
  by (simp add: dateDifferenceDays_dateUTC days_2024_01_15 days_2024_03_15)

lemma dateDifferenceDays_same [simp]: "dateDifferenceDays tz a a = 0"
  by (simp add: dateDifferenceDays_eq)

text \<open>
  C4: for a finite window the date score has three cases, in the order of the code: a
  whole-day difference of 0 gives score 1, in the window, difference 0; a difference
  greater than \<open>dateWindowDays\<close> gives score exactly 0.1, outside the window; any other
  difference gives \<open>max 0 (1 - dayDiff / dateWindowDays)\<close>, in the window. In particular
  the dates 2024-01-15 and 2024-03-15 with a window of 30 days are outside the window
  with score 0.1, in every time zone.
\<close>

theorem calculateDateScore_cases:
  assumes "dateWindowDays c = Num w"
  shows "(dateDifferenceDays tz d1 d2 = 0 \<longrightarrow>
            calculateDateScore tz d1 d2 c =
              \<lparr> ds_score = Num 1, ds_inWindow = True, ds_difference = Num 0 \<rparr>) \<and>
         (dateDifferenceDays tz d1 d2 \<noteq> 0 \<and> w < of_int (dateDifferenceDays tz d1 d2) \<longrightarrow>
            calculateDateScore tz d1 d2 c =
              \<lparr> ds_score = Num (1 / 10), ds_inWindow = False,
                ds_difference = Num (of_int (dateDifferenceDays tz d1 d2)) \<rparr>) \<and>
         (dateDifferenceDays tz d1 d2 \<noteq> 0 \<and> of_int (dateDifferenceDays tz d1 d2) \<le> w \<longrightarrow>
            calculateDateScore tz d1 d2 c =
              \<lparr> ds_score = Num (max 0 (1 - of_int (dateDifferenceDays tz d1 d2) / w)),
                ds_inWindow = True,
                ds_difference = Num (of_int (dateDifferenceDays tz d1 d2)) \<rparr>) \<and>
         (w = 30 \<longrightarrow>
            ds_inWindow (calculateDateScore tz (dateUTC 2024 1 15) (dateUTC 2024 3 15) c) = False \<and>
            ds_score (calculateDateScore tz (dateUTC 2024 1 15) (dateUTC 2024 3 15) c) =
              Num (1 / 10))"
proof -
  define n where "n = dateDifferenceDays tz d1 d2"
  have n0: "0 \<le> n" unfolding n_def by (rule dateDifferenceDays_nonneg)
  have w0: "w \<noteq> 0" if "n \<noteq> 0" "of_int n \<le> w"
    using that n0 by auto
  have c1: "calculateDateScore tz d1 d2 c =
      \<lparr> ds_score = Num 1, ds_inWindow = True, ds_difference = Num 0 \<rparr>" if "n = 0"
    using that by (simp add: calculateDateScore_def Let_def flip: n_def)
  have c2: "calculateDateScore tz d1 d2 c =
      \<lparr> ds_score = Num (1 / 10), ds_inWindow = False, ds_difference = Num (of_int n) \<rparr>"
    if "n \<noteq> 0" "w < of_int n"
    using that assms by (simp add: calculateDateScore_def Let_def flip: n_def)
  have c3: "calculateDateScore tz d1 d2 c =
      \<lparr> ds_score = Num (max 0 (1 - of_int n / w)), ds_inWindow = True,
        ds_difference = Num (of_int n) \<rparr>"
    if "n \<noteq> 0" "of_int n \<le> w"
    using that w0 [OF that] assms by (simp add: calculateDateScore_def Let_def flip: n_def)
  have scenario:
    "ds_inWindow (calculateDateScore tz (dateUTC 2024 1 15) (dateUTC 2024 3 15) c) = False \<and>
     ds_score (calculateDateScore tz (dateUTC 2024 1 15) (dateUTC 2024 3 15) c) = Num (1 / 10)"
    if "w = 30"
    using assms that by (simp add: calculateDateScore_def Let_def dateDifferenceDays_scenario)
  from c1 c2 c3 scenario show ?thesis
    unfolding n_def by blast
qed

theorem calculateDateScore_cases_witness:
  "dateDifferenceDays 0 (dateUTC 2024 1 15) (dateUTC 2024 1 25) \<noteq> 0 \<and>
   (of_int (dateDifferenceDays 0 (dateUTC 2024 1 15) (dateUTC 2024 1 25)) :: real) \<le> 30 \<and>
   calculateDateScore 0 (dateUTC 2024 1 15) (dateUTC 2024 1 25) DEFAULT_MATCHING_CONFIG =
     \<lparr> ds_score = Num (2 / 3), ds_inWindow = True, ds_difference = Num 10 \<rparr> \<and>
   ds_inWindow (calculateDateScore 0 (dateUTC 2024 1 15) (dateUTC 2024 3 15)
     DEFAULT_MATCHING_CONFIG) = False \<and>
   ds_score (calculateDateScore 0 (dateUTC 2024 1 15) (dateUTC 2024 3 15)
     DEFAULT_MATCHING_CONFIG) = Num (1 / 10)"
proof -
  have w: "dateWindowDays DEFAULT_MATCHING_CONFIG = Num 30"
    by (simp add: DEFAULT_MATCHING_CONFIG_def)
  have "daysFromCivil 2024 1 25 = 19747"
    by (simp add: daysFromCivil_def)
  then have d: "dateDifferenceDays 0 (dateUTC 2024 1 15) (dateUTC 2024 1 25) = 10"
    by (simp add: dateDifferenceDays_dateUTC days_2024_01_15)
  from calculateDateScore_cases [OF w, of 0 "dateUTC 2024 1 15" "dateUTC 2024 1 25"]
  show ?thesis unfolding d by simp
qed


section \<open>Sorting\<close>

lemma mset_insertSorted [simp]: "mset (insertSorted cmp x xs) = add_mset x (mset xs)"
  by (induction xs) simp_all

lemma mset_array_sort [simp]: "mset (array_sort cmp xs) = mset xs"
  by (induction xs) (simp_all add: array_sort_def)

lemma set_array_sort [simp]: "set (array_sort cmp xs) = set xs"
  by (metis mset_array_sort set_mset_mset)

lemma length_array_sort [simp]: "length (array_sort cmp xs) = length xs"
  by (metis mset_array_sort size_mset)


section \<open>Grouping and classification\<close>

lemma groupPush_apply:
  "groupPush key c m k =
     (if k = key then Some ((case m key of None \<Rightarrow> [] | Some ms \<Rightarrow> ms) @ [c]) else m k)"
  by (simp add: groupPush_def Let_def split: option.splits)

lemma fold_groupPush:
  "fold (\<lambda>c. groupPush (key c) c) cs m k =
     (if filter (\<lambda>c. key c = k) cs = [] then m k
      else Some ((case m k of None \<Rightarrow> [] | Some ms \<Rightarrow> ms) @ filter (\<lambda>c. key c = k) cs))"
proof (induction cs arbitrary: m)
  case Nil
  then show ?case by simp
next
  case (Cons c cs)
  let ?m = "groupPush (key c) c m"
  have step: "fold (\<lambda>c. groupPush (key c) c) (c # cs) m k = fold (\<lambda>c. groupPush (key c) c) cs ?m k"
    by simp
  have at_k: "?m k = (if k = key c then Some ((case m k of None \<Rightarrow> [] | Some ms \<Rightarrow> ms) @ [c])
                      else m k)"
    by (simp add: groupPush_apply)
  show ?case
    unfolding step Cons.IH [of ?m] at_k
    by (simp split: option.splits)
qed

lemma groupLength_groupByInvoice:
  assumes "c \<in> set cs"
  shows "groupLength (groupByInvoice cs) (invoiceId c) =
     Inr (length (filter (\<lambda>d. invoiceId d = invoiceId c) cs))"
proof -
  have "filter (\<lambda>d. invoiceId d = invoiceId c) cs \<noteq> []"
    using assms by (auto simp: filter_empty_conv)
  then show ?thesis
    by (simp add: groupLength_def groupByInvoice_def sortGroups_def fold_groupPush)
qed

lemma groupLength_groupByTransaction:
  assumes "c \<in> set cs"
  shows "groupLength (groupByTransaction cs) (transactionId c) =
     Inr (length (filter (\<lambda>d. transactionId d = transactionId c) cs))"
proof -
  have "filter (\<lambda>d. transactionId d = transactionId c) cs \<noteq> []"
    using assms by (auto simp: filter_empty_conv)
  then show ?thesis
    by (simp add: groupLength_def groupByTransaction_def sortGroups_def fold_groupPush)
qed

lemma filterE_total:
  assumes "\<And>x. x \<in> set xs \<Longrightarrow> p x = Inr (q x)"
  shows "filterE p xs = Inr (filter q xs)"
  using assms by (induction xs) simp_all

lemma findOneToOneMatches_eq:
  "findOneToOneMatches cs =
     Inr (filter (\<lambda>c. invoiceGroupSize cs c = 1 \<and> transactionGroupSize cs c = 1) cs)"
  unfolding findOneToOneMatches_def Let_def
  by (rule filterE_total)
     (simp add: groupLength_groupByInvoice groupLength_groupByTransaction
        invoiceGroupSize_def transactionGroupSize_def)

lemma findAmbiguousMatches_eq:
  "findAmbiguousMatches cs =
     Inr (filter (\<lambda>c. 1 < invoiceGroupSize cs c \<or> 1 < transactionGroupSize cs c) cs)"
  unfolding findAmbiguousMatches_def Let_def
  by (rule filterE_total)
     (simp add: groupLength_groupByInvoice groupLength_groupByTransaction
        invoiceGroupSize_def transactionGroupSize_def)

lemma invoiceGroupSize_pos: "c \<in> set cs \<Longrightarrow> 0 < invoiceGroupSize cs c"
  by (auto simp: invoiceGroupSize_def filter_empty_conv)

lemma transactionGroupSize_pos: "c \<in> set cs \<Longrightarrow> 0 < transactionGroupSize cs c"
  by (auto simp: transactionGroupSize_def filter_empty_conv)

text \<open>
  C8: for every list of candidates both classifications return (no group is missing
  from the maps), and no candidate is in both results: one-to-one asks for both group
  sizes to be 1, ambiguous for one of them to be greater than 1.
\<close>

theorem classifications_disjoint:
  "\<exists>one amb. findOneToOneMatches cs = Inr one \<and> findAmbiguousMatches cs = Inr amb \<and>
     set one \<inter> set amb = {}"
  by (auto simp: findOneToOneMatches_eq findAmbiguousMatches_eq)

text \<open>
  C10: the two classifications cover the candidates: every group of a candidate holds
  the candidate itself, so each size is 1 or greater than 1, and the two results
  together are the candidate list, every candidate in exactly one of them.
\<close>

theorem classifications_cover:
  "\<exists>one amb. findOneToOneMatches cs = Inr one \<and> findAmbiguousMatches cs = Inr amb \<and>
     mset one + mset amb = mset cs \<and> set one \<union> set amb = set cs \<and>
     set one \<inter> set amb = {}"
proof -
  let ?P = "\<lambda>c. invoiceGroupSize cs c = 1 \<and> transactionGroupSize cs c = 1"
  let ?Q = "\<lambda>c. 1 < invoiceGroupSize cs c \<or> 1 < transactionGroupSize cs c"
  have "?Q c = (\<not> ?P c)" if "c \<in> set cs" for c
    using invoiceGroupSize_pos [OF that] transactionGroupSize_pos [OF that] by auto
  then have "filter ?Q cs = filter (\<lambda>c. \<not> ?P c) cs"
    by (auto intro: filter_cong)
  then have m: "mset (filter ?P cs) + mset (filter ?Q cs) = mset cs"
    by simp
  then have "set_mset (mset (filter ?P cs) + mset (filter ?Q cs)) = set cs"
    by (simp only: set_mset_mset)
  then have "set (filter ?P cs) \<union> set (filter ?Q cs) = set cs"
    by simp
  moreover have "set (filter ?P cs) \<inter> set (filter ?Q cs) = {}"
    by auto
  ultimately show ?thesis
    using m by (simp add: findOneToOneMatches_eq findAmbiguousMatches_eq)
qed


section \<open>Filtering by confidence\<close>

lemma filterByConfidence_range:
  "filterByConfidence cs lo None = filter (\<lambda>c. js_ge (confidenceScore c) lo) cs"
  "truthy hi \<Longrightarrow> filterByConfidence cs lo (Some hi) =
     filter (\<lambda>c. js_ge (confidenceScore c) lo \<and> js_le (confidenceScore c) hi) cs"
  by (simp_all add: filterByConfidence_def Let_def)

text \<open>
  C5: with the upper bound 0 supplied, the filter should return the candidates whose
  confidence lies between the lower bound and 0. The condition on the upper bound tests
  the truth value of the bound, and 0 counts as false: the bound is ignored, and a
  candidate of confidence 0.5 passes the filter with bounds 0 and 0.
\<close>

theorem filterByConfidence_zero_max:
  "filterByConfidence [candidateWith ''INV-001'' ''TXN-001'' (Num (1 / 2))] (Num 0) (Some (Num 0)) =
     [candidateWith ''INV-001'' ''TXN-001'' (Num (1 / 2))] \<and>
   \<not> js_le (confidenceScore (candidateWith ''INV-001'' ''TXN-001'' (Num (1 / 2)))) (Num 0)"
  by (simp add: filterByConfidence_def candidateWith_def truthy_def js_ge_def)


section \<open>Candidates above the threshold, sorted\<close>

lemma fold_push_if:
  "fold (\<lambda>x acc. if P x then acc @ [f x] else acc) xs acc0 = acc0 @ filter P' (map f xs)"
  if "\<And>x. P x = P' (f x)"
  using that by (induction xs arbitrary: acc0) simp_all

lemma fold_append_concat:
  "fold (\<lambda>x acc. acc @ g x) xs acc0 = acc0 @ concat (map g xs)"
  by (induction xs arbitrary: acc0) simp_all

lemma findCandidatesForInvoice_eq:
  "findCandidatesForInvoice tz invoice transactions config =
     array_sort byConfidenceDesc (keptCandidates tz invoice transactions config)"
  unfolding findCandidatesForInvoice_def keptCandidates_def candidateOf_def meetsThreshold_def
    Let_def
  by (subst fold_push_if [where P' = "\<lambda>c. js_ge (confidenceScore c) (minConfidenceScore config)"])
    simp_all

lemma findMatches_eq:
  "findMatches tz invoices transactions config =
     array_sort byConfidenceDesc
       (concat (map (\<lambda>invoice. findCandidatesForInvoice tz invoice transactions
                       (mergeConfig DEFAULT_MATCHING_CONFIG config)) invoices))"
  by (simp add: findMatches_def Let_def fold_append_concat)


lemma isFinite_iff: "isFinite x \<longleftrightarrow> (\<exists>a. x = Num a)"
  by (cases x) simp_all

lemma sorted_insertSorted:
  assumes "isFinite (confidenceScore x)"
    and "\<And>y. y \<in> set ys \<Longrightarrow> isFinite (confidenceScore y)"
    and "sorted_wrt confidenceDescending ys"
  shows "sorted_wrt confidenceDescending (insertSorted byConfidenceDesc x ys)"
  using assms(2,3)
proof (induction ys)
  case Nil
  then show ?case by simp
next
  case (Cons y ys)
  obtain a where a: "confidenceScore x = Num a"
    using assms(1) by (auto simp: isFinite_iff)
  obtain b where b: "confidenceScore y = Num b"
    using Cons.prems(1) [of y] by (auto simp: isFinite_iff)
  have gt: "js_gt (byConfidenceDesc x y) (Num 0) \<longleftrightarrow> a < b"
    by (simp add: byConfidenceDesc_def js_gt_def a b)
  show ?case
  proof (cases "a < b")
    case True
    have "sorted_wrt confidenceDescending (insertSorted byConfidenceDesc x ys)"
      using Cons by simp
    moreover have "confidenceDescending y z" if "z \<in> set (insertSorted byConfidenceDesc x ys)" for z
    proof -
      have "z = x \<or> z \<in> set ys"
        using that by (metis insert_iff mset_insertSorted set_mset_add_mset_insert set_mset_mset)
      then show ?thesis
        using True Cons.prems(2) by (auto simp: confidenceDescending_def js_ge_def a b)
    qed
    ultimately show ?thesis
      using True gt by simp
  next
    case False
    have xy: "confidenceDescending x y"
      using False by (simp add: confidenceDescending_def js_ge_def a b)
    have "confidenceDescending x z" if zin: "z \<in> set ys" for z
    proof -
      obtain c where c: "confidenceScore z = Num c"
        using Cons.prems(1) [of z] zin by (auto simp: isFinite_iff)
      have "confidenceDescending y z"
        using Cons.prems(2) zin by simp
      then show ?thesis
        using False by (simp add: confidenceDescending_def js_ge_def a b c)
    qed
    then show ?thesis
      using False gt xy Cons.prems(2) by simp
  qed
qed

lemma sorted_array_sort:
  assumes "\<And>y. y \<in> set xs \<Longrightarrow> isFinite (confidenceScore y)"
  shows "sorted_wrt confidenceDescending (array_sort byConfidenceDesc xs)"
  using assms
proof (induction xs)
  case Nil
  then show ?case by (simp add: array_sort_def)
next
  case (Cons x xs)
  have "sorted_wrt confidenceDescending (insertSorted byConfidenceDesc x (array_sort byConfidenceDesc xs))"
    by (rule sorted_insertSorted) (use Cons in simp_all)
  then show ?case by (simp add: array_sort_def)
qed

lemma calculateConfidenceScore_range:
  "calculateConfidenceScore a d r c = NaN \<or>
   (\<exists>x. calculateConfidenceScore a d r c = Num x \<and> 0 \<le> x \<and> x \<le> 1)"
  unfolding calculateConfidenceScore_def Let_def by (rule clamp_cases)

lemma confidence_candidateOf:
  "confidenceScore (candidateOf tz i t c) = NaN \<or> isFinite (confidenceScore (candidateOf tz i t c))"
proof -
  have "confidenceScore (candidateOf tz i t c) =
      calculateConfidenceScore
        (as_score (calculateAmountScore (inv_amount i) (txn_amount t) c))
        (ds_score (calculateDateScore tz (inv_date i) (txn_date t) c))
        (calculateReferenceScore i t c) c"
    by (simp add: candidateOf_def Let_def)
  then show ?thesis
    using calculateConfidenceScore_range
      [of "as_score (calculateAmountScore (inv_amount i) (txn_amount t) c)"
          "ds_score (calculateDateScore tz (inv_date i) (txn_date t) c)"
          "calculateReferenceScore i t c" c]
    by (auto simp: isFinite_iff)
qed

lemma keptCandidates_finite:
  assumes "y \<in> set (keptCandidates tz i ts c)"
  shows "isFinite (confidenceScore y)"
proof -
  from assms obtain t where y: "y = candidateOf tz i t c" and m: "meetsThreshold c y"
    by (auto simp: keptCandidates_def)
  from m have "confidenceScore y \<noteq> NaN"
    by (auto simp: meetsThreshold_def js_ge_def)
  with confidence_candidateOf [of tz i t c] y show ?thesis by simp
qed

text \<open>
  C3: for all invoices, transactions and configuration, \<^verbatim>\<open>findMatches\<close> returns exactly
  the candidates of the full cross product whose confidence is at least
  \<open>minConfidenceScore\<close> of the merged configuration (as a multiset: every such pair, as
  often as it occurs, and nothing else), sorted by descending confidence.
\<close>

theorem findMatches_threshold_sorted:
  "mset (findMatches tz invoices transactions config) =
     mset (concat (map (\<lambda>invoice. keptCandidates tz invoice transactions
                          (mergeConfig DEFAULT_MATCHING_CONFIG config)) invoices)) \<and>
   sorted_wrt confidenceDescending (findMatches tz invoices transactions config)"
proof
  let ?c = "mergeConfig DEFAULT_MATCHING_CONFIG config"
  have "mset (concat (map (\<lambda>i. findCandidatesForInvoice tz i transactions ?c) invoices)) =
        mset (concat (map (\<lambda>i. keptCandidates tz i transactions ?c) invoices))"
    by (induction invoices) (simp_all add: findCandidatesForInvoice_eq)
  then show "mset (findMatches tz invoices transactions config) =
     mset (concat (map (\<lambda>invoice. keptCandidates tz invoice transactions ?c) invoices))"
    by (simp add: findMatches_eq)
  have "isFinite (confidenceScore y)"
    if "y \<in> set (concat (map (\<lambda>i. findCandidatesForInvoice tz i transactions ?c) invoices))" for y
    using that keptCandidates_finite by (auto simp: findCandidatesForInvoice_eq)
  then show "sorted_wrt confidenceDescending (findMatches tz invoices transactions config)"
    unfolding findMatches_eq by (rule sorted_array_sort)
qed


section \<open>Edit distance is at most the longer length\<close>

lemma fold_invariant:
  assumes "P s" and "\<And>x s. x \<in> set xs \<Longrightarrow> P s \<Longrightarrow> P (f x s)"
  shows "P (fold f xs s)"
  using assms by (induction xs arbitrary: s) simp_all

lemma tableBounded_set_cell:
  assumes "tableBounded matrix m n" and "j \<le> m" and "i \<le> n" and "v \<le> max i j"
  shows "tableBounded (set_cell matrix j i v) m n"
  using assms
  by (auto simp: tableBounded_def set_cell_def cell_def nth_list_update)

lemma tableBounded_replicate: "tableBounded (replicate (m + 1) (replicate (n + 1) 0)) m n"
  by (auto simp: tableBounded_def cell_def simp del: replicate_Suc)

lemma tableBounded_cell:
  "tableBounded matrix m n \<Longrightarrow> j \<le> m \<Longrightarrow> i \<le> n \<Longrightarrow> cell matrix j i \<le> max i j"
  by (simp add: tableBounded_def)

lemma tableBounded_fillCell:
  assumes "tableBounded matrix m n" and "1 \<le> j" "j \<le> m" and "1 \<le> i" "i \<le> n"
  shows "tableBounded (fillCell s1 s2 j i matrix) m n"
proof -
  have "cell matrix (j - 1) (i - 1) \<le> max (i - 1) (j - 1)"
    using assms by (intro tableBounded_cell [OF assms(1)]) simp_all
  moreover have "max (i - 1) (j - 1) + 1 = max i j"
    using assms(2,4) by (auto simp: max_def)
  ultimately have "cell matrix (j - 1) (i - 1) + (if s1 ! (i - 1) = s2 ! (j - 1) then 0 else 1)
      \<le> max i j"
    by simp
  then have "min (min (cell matrix j (i - 1) + 1) (cell matrix (j - 1) i + 1))
                 (cell matrix (j - 1) (i - 1) + (if s1 ! (i - 1) = s2 ! (j - 1) then 0 else 1))
             \<le> max i j"
    by (rule min.coboundedI2)
  then show ?thesis
    unfolding fillCell_def Let_def
    by (intro tableBounded_set_cell assms) 
qed

lemma length_trim: "length (trim s) \<le> length s"
proof -
  have "length (dropWhile isWhiteSpace (rev (dropWhile isWhiteSpace s))) \<le>
      length (rev (dropWhile isWhiteSpace s))"
    by (rule length_dropWhile_le)
  also have "\<dots> \<le> length s"
    by (simp add: length_dropWhile_le)
  finally show ?thesis by (simp add: trim_def)
qed

lemma length_toLowerCase [simp]: "length (toLowerCase s) = length s"
  by (simp add: toLowerCase_def)

lemma levenshteinDistance_le:
  "levenshteinDistance str1 str2 \<le> max (length str1) (length str2)"
proof -
  define s1 where "s1 = trim (toLowerCase str1)"
  define s2 where "s2 = trim (toLowerCase str2)"
  define n where "n = length s1"
  define m where "m = length s2"
  have n: "n \<le> length str1" and m: "m \<le> length str2"
    using length_trim [of "toLowerCase str1"] length_trim [of "toLowerCase str2"]
    by (simp_all add: n_def m_def s1_def s2_def)
  define matrix0 where "matrix0 = replicate (m + 1) (replicate (n + 1) (0 :: nat))"
  define matrix1 where "matrix1 = fold (\<lambda>i mt. set_cell mt 0 i i) [0 ..< n + 1] matrix0"
  define matrix2 where "matrix2 = fold (\<lambda>j mt. set_cell mt j 0 j) [0 ..< m + 1] matrix1"
  define matrix3 where
    "matrix3 = fold (\<lambda>j mt. fold (fillCell s1 s2 j) [1 ..< n + 1] mt) [1 ..< m + 1] matrix2"
  have b0: "tableBounded matrix0 m n"
    unfolding matrix0_def by (rule tableBounded_replicate)
  have b1: "tableBounded matrix1 m n"
    unfolding matrix1_def
    by (rule fold_invariant [where P = "\<lambda>mt. tableBounded mt m n", OF b0])
       (auto intro: tableBounded_set_cell)
  have b2: "tableBounded matrix2 m n"
    unfolding matrix2_def
    by (rule fold_invariant [where P = "\<lambda>mt. tableBounded mt m n", OF b1])
       (auto intro: tableBounded_set_cell)
  have b3: "tableBounded matrix3 m n"
    unfolding matrix3_def
  proof (rule fold_invariant [where P = "\<lambda>mt. tableBounded mt m n", OF b2])
    fix j mt
    assume j: "j \<in> set [1 ..< m + 1]" and mt: "tableBounded mt m n"
    show "tableBounded (fold (fillCell s1 s2 j) [1 ..< n + 1] mt) m n"
      by (rule fold_invariant [where P = "\<lambda>mt. tableBounded mt m n", OF mt])
         (use j in \<open>auto intro: tableBounded_fillCell\<close>)
  qed
  have "cell matrix3 m n \<le> max n m"
    by (rule tableBounded_cell [OF b3]) simp_all
  moreover have "levenshteinDistance str1 str2 =
      (if n = 0 then m else if m = 0 then n else cell matrix3 m n)"
    by (simp add: levenshteinDistance_def Let_def matrix3_def matrix2_def matrix1_def
        matrix0_def n_def m_def s1_def s2_def)
  ultimately show ?thesis
    using n m by auto
qed


section \<open>Scores between 0 and 1\<close>

lemma inUnitInterval_iff: "inUnitInterval x \<longleftrightarrow> (\<exists>r. x = Num r \<and> 0 \<le> r \<and> r \<le> 1)"
  by (cases x) (simp_all add: inUnitInterval_def)

lemma inUnitInterval_Num [simp]: "inUnitInterval (Num r) \<longleftrightarrow> 0 \<le> r \<and> r \<le> 1"
  by (simp add: inUnitInterval_def)

lemma levenshteinSimilarity_unit: "inUnitInterval (levenshteinSimilarity str1 str2)"
proof (cases "max (length str1) (length str2) = 0")
  case True
  then show ?thesis by (simp add: levenshteinSimilarity_def)
next
  case False
  let ?d = "real (levenshteinDistance str1 str2)"
  let ?m = "real (max (length str1) (length str2))"
  have m: "0 < ?m" by (metis False gr0I of_nat_0_less_iff)
  have "?d \<le> ?m" using levenshteinDistance_le [of str1 str2] by (simp only: of_nat_le_iff)
  then have "?d / ?m \<le> 1" "0 \<le> ?d / ?m" using m by simp_all
  moreover have "levenshteinSimilarity str1 str2 = js_sub (Num 1) (js_div (Num ?d) (Num ?m))"
    using False by (simp only: levenshteinSimilarity_def Let_def if_False)
  moreover have "js_div (Num ?d) (Num ?m) = Num (?d / ?m)"
    using m by auto
  ultimately show ?thesis by simp
qed

lemma fuzzyScore_unit: "inUnitInterval (fuzzyScore pattern target)"
proof -
  define p where "p = trim (toLowerCase pattern)"
  define t where "t = trim (toLowerCase target)"
  obtain pi ti mc where loop: "fuzzyLoop p t 0 0 0 = (pi, ti, mc)"
    by (cases "fuzzyLoop p t 0 0 0") blast
  show ?thesis
  proof (cases "length p = 0 \<or> length t = 0 \<or> pi \<noteq> length p")
    case True
    then show ?thesis
      by (auto simp: fuzzyScore_def Let_def loop simp flip: p_def t_def)
  next
    case False
    then have "fuzzyScore pattern target =
        Num (max (5 / 10) (min 1 ((real mc / real (length p) +
              (1 - real ti / real (length t) / 2)) / 2)))"
      by (simp add: fuzzyScore_def Let_def loop flip: p_def t_def)
    then show ?thesis by simp
  qed
qed

lemma bestMatchLoop_unit:
  "inUnitInterval bestMatch \<Longrightarrow> inUnitInterval (bestMatchLoop ref1 refs2 bestMatch)"
proof (induction refs2 arbitrary: bestMatch)
  case Nil
  then show ?case by simp
next
  case (Cons ref2 rest)
  show ?case
  proof (cases "ref1 = ref2")
    case True
    then show ?thesis by simp
  next
    case False
    obtain b where b: "bestMatch = Num b" "0 \<le> b" "b \<le> 1"
      using Cons.prems by (auto simp: inUnitInterval_iff)
    obtain s where s: "levenshteinSimilarity ref1 ref2 = Num s" "0 \<le> s" "s \<le> 1"
      using levenshteinSimilarity_unit [of ref1 ref2] by (auto simp: inUnitInterval_iff)
    obtain f where f: "fuzzyScore ref1 ref2 = Num f" "0 \<le> f" "f \<le> 1"
      using fuzzyScore_unit [of ref1 ref2] by (auto simp: inUnitInterval_iff)
    have "inUnitInterval (Num (max (max b s) f))"
      using b s f by simp
    then have "inUnitInterval (bestMatchLoop ref1 rest (Num (max (max b s) f)))"
      by (rule Cons.IH)
    then show ?thesis
      using False by (simp add: b s f)
  qed
qed

lemma bestMatchLoop_exact:
  "ref1 \<in> set refs2 \<Longrightarrow> bestMatchLoop ref1 refs2 bestMatch = Num 1"
  by (induction refs2 arbitrary: bestMatch) (auto simp: Let_def)

lemma compare_fold:
  assumes "0 \<le> tot" "tot \<le> real n"
  shows "\<exists>tot'. fold (\<lambda>ref1 (totalScore, comparisons).
                     (js_add totalScore (bestMatchLoop ref1 refs2 (Num 0)), comparisons + 1))
                  refs1 (Num tot, n) = (Num tot', n + length refs1) \<and>
           0 \<le> tot' \<and> tot' \<le> real (n + length refs1)"
  using assms
proof (induction refs1 arbitrary: tot n)
  case Nil
  then show ?case by simp
next
  case (Cons ref1 refs1)
  obtain b where b: "bestMatchLoop ref1 refs2 (Num 0) = Num b" "0 \<le> b" "b \<le> 1"
    using bestMatchLoop_unit [of "Num 0" ref1 refs2] by (auto simp: inUnitInterval_iff)
  have "0 \<le> tot + b" "tot + b \<le> real (n + 1)"
    using Cons.prems b by simp_all
  from Cons.IH [OF this] show ?case
    by (simp add: b)
qed

lemma compareReferenceSets_unit: "inUnitInterval (compareReferenceSets refs1 refs2)"
proof (cases "length refs1 = 0 \<or> length refs2 = 0")
  case True
  then show ?thesis by (auto simp: compareReferenceSets_def)
next
  case False
  obtain tot where t: "fold (\<lambda>ref1 (totalScore, comparisons).
                     (js_add totalScore (bestMatchLoop ref1 refs2 (Num 0)), comparisons + 1))
                  refs1 (Num 0, 0) = (Num tot, length refs1)"
      "0 \<le> tot" "tot \<le> real (length refs1)"
    using compare_fold [of 0 0 refs2 refs1] by auto
  have n: "0 < real (length refs1)" using False by simp
  then have "tot / real (length refs1) \<le> 1" "0 \<le> tot / real (length refs1)"
    using t(2,3) by simp_all
  then have "inUnitInterval (Num (tot / real (length refs1)))"
    by simp
  moreover have "compareReferenceSets refs1 refs2 = Num (tot / real (length refs1))"
    unfolding compareReferenceSets_def t(1) using False by simp
  ultimately show ?thesis by simp
qed

lemma compareReferenceSets_all_exact:
  assumes "refs1 \<noteq> []" and "set refs1 \<subseteq> set refs2"
  shows "compareReferenceSets refs1 refs2 = Num 1"
proof -
  have fold_eq: "fold (\<lambda>ref1 (totalScore, comparisons).
                     (js_add totalScore (bestMatchLoop ref1 refs2 (Num 0)), comparisons + 1))
                  rs (Num tot, n) = (Num (tot + real (length rs)), n + length rs)"
    if "set rs \<subseteq> set refs2" for rs tot n
    using that
  proof (induction rs arbitrary: tot n)
    case Nil
    then show ?case by simp
  next
    case (Cons r rs)
    then have "bestMatchLoop r refs2 (Num 0) = Num 1" "set rs \<subseteq> set refs2"
      by (simp_all add: bestMatchLoop_exact)
    then show ?case
      using Cons.IH [of "tot + 1" "n + 1"] by (simp add: add.assoc)
  qed
  have "refs2 \<noteq> []" using assms by auto
  then show ?thesis
    using assms fold_eq [OF assms(2), of 0 0]
    by (simp add: compareReferenceSets_def)
qed

lemma calculateReferenceScore_unit: "inUnitInterval (calculateReferenceScore invoice transaction c)"
proof -
  let ?ir = "extractReferences (customerName invoice @ '' '' @ orEmpty (referenceId invoice) @
      '' '' @ orEmpty (inv_description invoice))"
  let ?tr = "extractReferences (txn_description transaction)"
  obtain s where s: "compareReferenceSets ?ir ?tr = Num s" "0 \<le> s" "s \<le> 1"
    using compareReferenceSets_unit [of ?ir ?tr] by (auto simp: inUnitInterval_iff)
  obtain k where k: "levenshteinSimilarity (customerName invoice) (txn_description transaction) = Num k"
      "0 \<le> k" "k \<le> 1"
    using levenshteinSimilarity_unit [of "customerName invoice" "txn_description transaction"]
    by (auto simp: inUnitInterval_iff)
  have "k * (8 / 10) \<le> 1" "0 \<le> k * (8 / 10)" using k(2,3) by simp_all
  then have "inUnitInterval (Num (max s (k * (8 / 10))))"
    using s(2,3) by (auto simp: max_def)
  moreover have "calculateReferenceScore invoice transaction c =
      (if length ?ir = 0 \<or> length ?tr = 0 then Num (3 / 10) else Num (max s (k * (8 / 10))))"
    unfolding calculateReferenceScore_def Let_def s(1) k(1) by simp
  ultimately show ?thesis by simp
qed


lemma outside_tolerance_unit:
  assumes "0 \<le> (x :: real)"
  shows "0 \<le> max 0 (max 0 (1 - x / 50) * (5 / 10))"
    and "max 0 (max 0 (1 - x / 50) * (5 / 10)) \<le> 1"
    and "0 \<le> max 0 (5 / 10 * (1 - x / 50))"
    and "max 0 (5 / 10 * (1 - x / 50)) \<le> 1"
  using assms by (auto simp: max_def)

lemma calculateAmountScore_unit:
  assumes "0 < a"
  shows "inUnitInterval (as_score (calculateAmountScore (Num a) (Num b) c))"
proof (cases "a = b \<or> exactAmountMatch c")
  case True
  then show ?thesis
    by (auto simp: calculateAmountScore_def Let_def js_eq_def)
next
  case False
  then have ne: "a \<noteq> b" and nx: "\<not> exactAmountMatch c" by simp_all
  let ?pd = "\<bar>a - b\<bar> / a * 100"
  have pd: "0 \<le> ?pd" using assms by simp
  have outside: "inUnitInterval (js_max (Num 0)
      (js_mul (js_max (Num 0) (js_sub (Num 1) (js_div (Num ?pd) (Num 50)))) (Num (5 / 10))))"
    using outside_tolerance_unit(1,2) [OF pd] by simp
  show ?thesis
  proof (cases "amountTolerance c")
    case (Num t)
    have "inUnitInterval (Num (1 - ?pd / (t * 100)))" if "\<bar>a - b\<bar> \<le> t * a / 100"
    proof -
      from calculateAmountScore_general [OF assms ne nx Num] that
      have t: "0 < t" and lo: "99 / 100 \<le> 1 - ?pd / (t * 100)" by blast+
      have "0 \<le> ?pd / (t * 100)"
        using pd t by (intro divide_nonneg_pos) simp_all
      then have "1 - ?pd / (t * 100) \<le> 1" "0 \<le> 1 - ?pd / (t * 100)"
        using lo by linarith+
      then show ?thesis by (simp only: inUnitInterval_Num)
    qed
    moreover have "inUnitInterval (Num (max 0 (5 / 10 * (1 - ?pd / 50))))"
      using outside_tolerance_unit(3,4) [OF pd] by simp
    ultimately show ?thesis
      using calculateAmountScore_general [OF assms ne nx Num]
      by (cases "\<bar>a - b\<bar> \<le> t * a / 100") simp_all
  next
    case PosInf
    then show ?thesis
      using assms ne nx
      by (simp add: calculateAmountScore_def Let_def js_eq_def sgn_inf_def)
  next
    case NegInf
    then show ?thesis
      using assms ne nx outside
      by (simp add: calculateAmountScore_def Let_def js_eq_def sgn_inf_def)
  next
    case NaN
    then show ?thesis
      using assms ne nx outside
      by (simp add: calculateAmountScore_def Let_def js_eq_def)
  qed
qed

lemma calculateDateScore_unit: "inUnitInterval (ds_score (calculateDateScore tz d1 d2 c))"
proof -
  define n where "n = dateDifferenceDays tz d1 d2"
  have n0: "0 \<le> n" unfolding n_def by (rule dateDifferenceDays_nonneg)
  show ?thesis
  proof (cases "n = 0 \<or> \<not> js_le (Num (of_int n)) (dateWindowDays c)")
    case True
    then show ?thesis
      by (auto simp: calculateDateScore_def Let_def simp flip: n_def)
  next
    case False
    then have n1: "0 < n" and le: "js_le (Num (of_int n)) (dateWindowDays c)"
      using n0 by simp_all
    have "inUnitInterval (js_max (Num 0)
        (js_sub (Num 1) (js_div (Num (of_int n)) (dateWindowDays c))))"
    proof (cases "dateWindowDays c")
      case (Num w)
      then have "real_of_int n \<le> w" using le by simp
      moreover have "0 < real_of_int n" using n1 by simp
      ultimately have "0 < w" "real_of_int n / w \<le> 1" "0 \<le> real_of_int n / w"
        by simp_all
      then show ?thesis using Num by (simp add: max_def)
    qed (use le in simp_all)
    then show ?thesis
      using False by (simp add: calculateDateScore_def Let_def flip: n_def)
  qed
qed

text \<open>
  C6: for every configuration and every pair of an invoice with a positive amount and a
  transaction (amounts finite), the amount score, the date score and the reference
  score are between 0 and 1.
\<close>

theorem scores_in_unit_interval:
  assumes "inv_amount invoice = Num a" and "0 < a" and "txn_amount transaction = Num b"
  shows "inUnitInterval
           (as_score (calculateAmountScore (inv_amount invoice) (txn_amount transaction) c)) \<and>
         inUnitInterval
           (ds_score (calculateDateScore tz (inv_date invoice) (txn_date transaction) c)) \<and>
         inUnitInterval (calculateReferenceScore invoice transaction c)"
  using assms calculateAmountScore_unit [of a b c]
    calculateDateScore_unit [of tz "inv_date invoice" "txn_date transaction" c]
    calculateReferenceScore_unit [of invoice transaction c]
  by simp

theorem scores_in_unit_interval_witness:
  "inv_amount (scenarioInvoice ''INV-001'' ''CUST-001'') = Num 1000 \<and> (0 :: real) < 1000 \<and>
   txn_amount (scenarioTransaction ''TXN-001'' None) = Num 1000 \<and>
   inUnitInterval
     (as_score (calculateAmountScore (inv_amount (scenarioInvoice ''INV-001'' ''CUST-001''))
        (txn_amount (scenarioTransaction ''TXN-001'' None)) DEFAULT_MATCHING_CONFIG)) \<and>
   inUnitInterval
     (ds_score (calculateDateScore 0 (inv_date (scenarioInvoice ''INV-001'' ''CUST-001''))
        (txn_date (scenarioTransaction ''TXN-001'' None)) DEFAULT_MATCHING_CONFIG)) \<and>
   inUnitInterval
     (calculateReferenceScore (scenarioInvoice ''INV-001'' ''CUST-001'')
        (scenarioTransaction ''TXN-001'' None) DEFAULT_MATCHING_CONFIG)"
proof -
  have h: "inv_amount (scenarioInvoice ''INV-001'' ''CUST-001'') = Num 1000" "(0 :: real) < 1000"
    "txn_amount (scenarioTransaction ''TXN-001'' None) = Num 1000"
    by (simp_all add: scenarioInvoice_def scenarioTransaction_def)
  from scores_in_unit_interval [OF h, of DEFAULT_MATCHING_CONFIG 0] h show ?thesis
    by blast
qed


section \<open>Scenario A\<close>

lemma extract_scenarioInvoice: "extractReferences ''Test Company  '' = [''test'', ''company'']"
  by code_simp

lemma extract_scenarioTransaction:
  "extractReferences ''Test Company REF-001 payment'' =
     [''001'', ''REF-001'', ''test'', ''company'', ''ref'', ''payment'']"
  by code_simp

lemma mergeConfig_empty [simp]: "mergeConfig c emptyConfig = c"
  by (simp add: mergeConfig_def emptyConfig_def orDefault_def)

lemma array_sort_single [simp]: "array_sort cmp [x] = [x]"
  by (simp add: array_sort_def)

lemma scenario_referenceScore:
  "calculateReferenceScore (scenarioInvoice iid cid) (scenarioTransaction tid ref) c = Num 1"
proof -
  let ?ir = "[''test'', ''company'']"
  let ?tr = "[''001'', ''REF-001'', ''test'', ''company'', ''ref'', ''payment'']"
  have cmp: "compareReferenceSets ?ir ?tr = Num 1"
    by (rule compareReferenceSets_all_exact) simp_all
  obtain k where k: "levenshteinSimilarity ''Test Company'' ''Test Company REF-001 payment'' = Num k"
      "0 \<le> k" "k \<le> 1"
    using levenshteinSimilarity_unit [of "''Test Company''" "''Test Company REF-001 payment''"]
    by (auto simp: inUnitInterval_iff)
  have "max 1 (k * (8 / 10)) = 1" using k(3) by (simp add: max_def)
  then show ?thesis
    by (simp add: calculateReferenceScore_def scenarioInvoice_def scenarioTransaction_def
        orEmpty_def extract_scenarioInvoice extract_scenarioTransaction cmp k(1) Let_def)
qed

lemma scenario_candidate:
  "candidateOf tz (scenarioInvoice iid cid) (scenarioTransaction tid ref) DEFAULT_MATCHING_CONFIG =
     candidateWith iid tid (Num 1)"
proof -
  have a: "calculateAmountScore (Num 1000) (Num 1000) DEFAULT_MATCHING_CONFIG =
      \<lparr> as_score = Num 1, as_isMatch = True, as_difference = Num 0 \<rparr>"
    by (simp add: calculateAmountScore_def Let_def js_eq_def)
  have d: "calculateDateScore tz (dateUTC 2024 1 15) (dateUTC 2024 1 15) DEFAULT_MATCHING_CONFIG =
      \<lparr> ds_score = Num 1, ds_inWindow = True, ds_difference = Num 0 \<rparr>"
    by (simp add: calculateDateScore_def Let_def)
  have c: "calculateConfidenceScore (Num 1) (Num 1) (Num 1) DEFAULT_MATCHING_CONFIG = Num 1"
    by (subst calculateConfidenceScore_Num [where wa = "4 / 10" and wd = "3 / 10" and wr = "3 / 10"])
       (simp_all add: DEFAULT_MATCHING_CONFIG_def)
  have i: "inv_amount (scenarioInvoice iid cid) = Num 1000"
      "inv_date (scenarioInvoice iid cid) = dateUTC 2024 1 15"
      "inv_id (scenarioInvoice iid cid) = iid"
    by (simp_all add: scenarioInvoice_def)
  have t: "txn_amount (scenarioTransaction tid ref) = Num 1000"
      "txn_date (scenarioTransaction tid ref) = dateUTC 2024 1 15"
      "txn_id (scenarioTransaction tid ref) = tid"
    by (simp_all add: scenarioTransaction_def)
  show ?thesis
    unfolding candidateOf_def Let_def i t a d scenario_referenceScore
    by (simp add: c candidateWith_def)
qed

text \<open>
  C9: the invoice of amount 1000, date 2024-01-15 and customer name "Test Company"
  against the transaction of amount 1000, the same date and description
  "Test Company REF-001 payment", under the default configuration: \<^verbatim>\<open>findMatches\<close>
  returns exactly one candidate, whose confidence is greater than 0.8 (it is 1), with
  the amounts matching and the date in the window. The identifiers and the time zone
  are arbitrary.
\<close>

theorem findMatches_scenario_A:
  "findMatches tz [scenarioInvoice iid cid] [scenarioTransaction tid ref] emptyConfig =
     [candidateWith iid tid (Num 1)] \<and>
   length (findMatches tz [scenarioInvoice iid cid] [scenarioTransaction tid ref] emptyConfig) = 1 \<and>
   js_gt (confidenceScore (candidateWith iid tid (Num 1))) (Num (8 / 10)) \<and>
   amountMatch (breakdown (candidateWith iid tid (Num 1))) \<and>
   dateInWindow (breakdown (candidateWith iid tid (Num 1)))"
proof -
  have "meetsThreshold DEFAULT_MATCHING_CONFIG (candidateWith iid tid (Num 1))"
    by (simp add: meetsThreshold_def candidateWith_def DEFAULT_MATCHING_CONFIG_def js_ge_def)
  then have "findMatches tz [scenarioInvoice iid cid] [scenarioTransaction tid ref] emptyConfig =
     [candidateWith iid tid (Num 1)]"
    by (simp add: findMatches_eq findCandidatesForInvoice_eq keptCandidates_def
        scenario_candidate)
  then show ?thesis
    by (simp add: candidateWith_def js_gt_def)
qed

end
